theory Spec2Isabelle
  imports Main "HOL-Library.Sublist"
begin

section \<open>Regular expressions of kubeimage.js\<close>

text \<open>
  The script reads the output of \<^verbatim>\<open>kubectl\<close> with regular expression literals. Every
  quantifier in them stands on a single character class, so a pattern is a sequence of
  atoms: a literal text, a greedy repetition of a class, a lazy repetition of a class, and
  a captured greedy repetition of a class. Strings are lists of code units below 256;
  the separators U+2028 and U+2029 and the wide blanks, which the classes of ECMAScript
  also know, lie outside this range.
\<close>

datatype cclass =
    Digit         \<comment> \<open>\<^verbatim>\<open>[\d]\<close>\<close>
  | Space         \<comment> \<open>\<^verbatim>\<open>[\s]\<close>\<close>
  | NotSpace      \<comment> \<open>\<^verbatim>\<open>[^\s]\<close>\<close>
  | AnyChar       \<comment> \<open>\<^verbatim>\<open>.\<close>: everything but a line terminator\<close>
  | AnyOrNewline  \<comment> \<open>\<^verbatim>\<open>(?:.|\n)\<close>\<close>

definition is_digit :: "char \<Rightarrow> bool" where
  "is_digit c = (c \<in> set ''0123456789'')"

definition is_space :: "char \<Rightarrow> bool" where
  "is_space c = (c \<in> {CHR 0x09, CHR 0x0A, CHR 0x0B, CHR 0x0C, CHR 0x0D, CHR '' '', CHR 0xA0})"

definition line_terminator :: "char \<Rightarrow> bool" where
  "line_terminator c = (c = CHR 0x0A \<or> c = CHR 0x0D)"

fun in_class :: "cclass \<Rightarrow> char \<Rightarrow> bool" where
  "in_class Digit c = is_digit c"
| "in_class Space c = is_space c"
| "in_class NotSpace c = (\<not> is_space c)"
| "in_class AnyChar c = (\<not> line_terminator c)"
| "in_class AnyOrNewline c = (\<not> line_terminator c \<or> c = CHR 0x0A)"

datatype atom =
    Lit string          \<comment> \<open>the text itself\<close>
  | Rep cclass nat      \<comment> \<open>\<^verbatim>\<open>C*\<close> (at least 0) or \<^verbatim>\<open>C+\<close> (at least 1), greedy\<close>
  | LazyRep cclass nat  \<comment> \<open>\<^verbatim>\<open>C*?\<close>, shortest first\<close>
  | Cap cclass nat      \<comment> \<open>\<^verbatim>\<open>(C*)\<close> or \<^verbatim>\<open>(C+)\<close>, greedy, captured\<close>

fun first_some :: "'a option list \<Rightarrow> 'a option" where
  "first_some [] = None"
| "first_some (None # xs) = first_some xs"
| "first_some (Some x # xs) = Some x"

text \<open>
  \<open>rmatch re s\<close> matches the pattern at the head of \<open>s\<close> the way a backtracking matcher
  does: a greedy repetition takes the longest run of its class and gives characters back
  one at a time until the rest of the pattern matches, a lazy one starts from the
  shortest. The result holds the captured groups in order and the text after the match.
\<close>

fun rmatch :: "atom list \<Rightarrow> string \<Rightarrow> (string list \<times> string) option" where
  "rmatch [] s = Some ([], s)"
| "rmatch (Lit l # r) s =
     (if take (length l) s = l then rmatch r (drop (length l) s) else None)"
| "rmatch (Rep c lo # r) s =
     first_some (map (\<lambda>n. rmatch r (drop n s))
                     (rev [lo ..< Suc (length (takeWhile (in_class c) s))]))"
| "rmatch (LazyRep c lo # r) s =
     first_some (map (\<lambda>n. rmatch r (drop n s))
                     [lo ..< Suc (length (takeWhile (in_class c) s))])"
| "rmatch (Cap c lo # r) s =
     first_some (map (\<lambda>n. map_option (\<lambda>(caps, rest). (take n s # caps, rest))
                                      (rmatch r (drop n s)))
                     (rev [lo ..< Suc (length (takeWhile (in_class c) s))]))"

text \<open>\<open>search\<close> is \<^verbatim>\<open>re.exec\<close> of a pattern with no anchor: the leftmost start wins.\<close>

fun search :: "atom list \<Rightarrow> string \<Rightarrow> (string list \<times> string) option" where
  "search re [] = rmatch re []"
| "search re (c # cs) =
     (case rmatch re (c # cs) of Some m \<Rightarrow> Some m | None \<Rightarrow> search re cs)"

text \<open>
  A pattern with the \<^verbatim>\<open>g\<close> flag in \<^verbatim>\<open>while (m = re.exec(stdout))\<close> resumes where the
  last match ended. A match that consumes nothing would leave \<^verbatim>\<open>lastIndex\<close> in place and
  the loop would never end: that is the value \<open>None\<close>.
\<close>

function exec_all :: "atom list \<Rightarrow> string \<Rightarrow> string list list option" where
  "exec_all re s =
     (case search re s of
        None \<Rightarrow> Some []
      | Some (caps, rest) \<Rightarrow>
          if length rest < length s then map_option ((#) caps) (exec_all re rest)
          else None)"
  by pat_completeness auto
termination
  by (relation "measure (\<lambda>(re, s). length s)") auto

text \<open>Every match of the pattern takes at least one character.\<close>

definition consuming :: "atom list \<Rightarrow> bool" where
  "consuming re = (\<forall>s caps rest. rmatch re s = Some (caps, rest) \<longrightarrow> length rest < length s)"

text \<open>\<^verbatim>\<open>m[1]\<close> of a match: the first group, \<^verbatim>\<open>undefined\<close> when the pattern has none.\<close>

fun group1 :: "string list \<Rightarrow> string option" where
  "group1 [] = None"
| "group1 (c # cs) = Some c"

section \<open>Build extractor\<close>

text \<open>\<^verbatim>\<open>/image:.*-([\d]*)/\<close> of \<^verbatim>\<open>getPodBuildNumber\<close> and \<^verbatim>\<open>getDeploymentBuildNumber\<close>.\<close>

definition build_re :: "atom list" where
  "build_re = [Lit ''image:'', Rep AnyChar 0, Lit ''-'', Cap Digit 0]"

text \<open>
  Both functions hand their callback \<^verbatim>\<open>(false, match[1])\<close> on a match and \<^verbatim>\<open>(true)\<close>
  otherwise; the two differ in the command only.
\<close>

datatype build_result = Found "string option" | NotFound

definition extract_build :: "string \<Rightarrow> build_result" where
  "extract_build stdout =
     (case search build_re stdout of
        Some (caps, rest) \<Rightarrow> Found (group1 caps)
      | None \<Rightarrow> NotFound)"

definition getPodBuildNumber :: "string \<Rightarrow> build_result" where
  "getPodBuildNumber stdout = extract_build stdout"

definition getDeploymentBuildNumber :: "string \<Rightarrow> build_result" where
  "getDeploymentBuildNumber stdout = extract_build stdout"

text \<open>
  The words of the specification: an \<^verbatim>\<open>image:\<close> with a dash after it on the same line.
\<close>

fun image_with_dash :: "string \<Rightarrow> bool" where
  "image_with_dash [] = False"
| "image_with_dash (c # cs) =
     ((take 6 (c # cs) = ''image:''
         \<and> CHR ''-'' \<in> set (takeWhile (\<lambda>x. \<not> line_terminator x) (drop 6 (c # cs))))
      \<or> image_with_dash cs)"

section \<open>Inventory parser\<close>

text \<open>An element of the array \<^verbatim>\<open>parsePods\<close> returns; \<^verbatim>\<open>build\<close> is absent until it is assigned.\<close>

record pod =
  pod_id :: string
  pod_ready :: bool
  pod_name :: string
  pod_state :: string
  pod_restarts :: string
  pod_build :: "string option"

text \<open>
  \<^verbatim>\<open>/^(.*)-[\d]*-/.exec(m[1])\<close>: no \<^verbatim>\<open>m\<close> flag, so the anchor holds the match at the head of
  the id. The name is \<^verbatim>\<open>m2 ? m2[1] : m[1]\<close>.
\<close>

definition name_re :: "atom list" where
  "name_re = [Cap AnyChar 0, Lit ''-'', Rep Digit 0, Lit ''-'']"

definition derive_name :: "string \<Rightarrow> string" where
  "derive_name ident =
     (case rmatch name_re ident of
        Some (m2_1 # caps, rest) \<Rightarrow> m2_1
      | _ \<Rightarrow> ident)"

text \<open>\<^verbatim>\<open>/([^\s]+)[\s]+([\d]*)\/([\d]*)[\s]+([^\s]+)[\s]+([\d]*)/gm\<close>\<close>

definition pods_re :: "atom list" where
  "pods_re = [Cap NotSpace 1, Rep Space 1, Cap Digit 0, Lit ''/'', Cap Digit 0, Rep Space 1,
              Cap NotSpace 1, Rep Space 1, Cap Digit 0]"

text \<open>
  The object pushed for a match; both sides of \<^verbatim>\<open>m[3] == m[2]\<close> are strings, which \<^verbatim>\<open>==\<close>
  compares as they are. The pattern has five groups, so the second equation never applies.
\<close>

fun pod_of_match :: "string list \<Rightarrow> pod option" where
  "pod_of_match [m1, m2, m3, m4, m5] =
     Some \<lparr>pod_id = m1, pod_ready = (m3 = m2), pod_name = derive_name m1,
           pod_state = m4, pod_restarts = m5, pod_build = None\<rparr>"
| "pod_of_match m = None"

definition parsePods :: "string \<Rightarrow> pod list option" where
  "parsePods stdout = map_option (List.map_filter pod_of_match) (exec_all pods_re stdout)"

text \<open>
  The words of the specification for the name: the id contains a dash, a run of digits
  and a dash.
\<close>

fun has_numeric_segment :: "string \<Rightarrow> bool" where
  "has_numeric_segment [] = False"
| "has_numeric_segment (c # cs) =
     ((c = CHR ''-'' \<and> take 1 (dropWhile is_digit cs) = ''-'') \<or> has_numeric_segment cs)"

text \<open>The text at the head of \<open>u\<close> is a dash, digits if any, and a dash.\<close>

definition segment_at :: "string \<Rightarrow> bool" where
  "segment_at u = (take 1 u = ''-'' \<and> take 1 (dropWhile is_digit (drop 1 u)) = ''-'')"

section \<open>Batched build query\<close>

text \<open>\<^verbatim>\<open>/containerStatuses:(?:.|\n)*?image:.*-([\d]*)/gm\<close>\<close>

definition batch_re :: "atom list" where
  "batch_re = [Lit ''containerStatuses:'', LazyRep AnyOrNewline 0, Lit ''image:'',
               Rep AnyChar 0, Lit ''-'', Cap Digit 0]"

text \<open>
  The loop over the matches: \<^verbatim>\<open>if (pods[index]) pods[index].build = m[1]; index++\<close>.
  An element of \<^verbatim>\<open>pods\<close> is an object, so \<^verbatim>\<open>pods[index]\<close> is truthy exactly within the array.
\<close>

fun assign_builds :: "string list list \<Rightarrow> nat \<Rightarrow> pod list \<Rightarrow> pod list" where
  "assign_builds [] index pods = pods"
| "assign_builds (m # ms) index pods =
     assign_builds ms (Suc index)
       (if index < length pods
        then pods[index := (pods ! index)\<lparr>pod_build := group1 m\<rparr>]
        else pods)"

text \<open>
  \<^verbatim>\<open>getPodsWithBuildNumbers\<close> on the output of \<^verbatim>\<open>kubectl get pods\<close> and of
  \<^verbatim>\<open>kubectl get pod <ids> -o yaml\<close>; the ids are requested in the order of the filtered
  array. The result is what the callback receives; \<open>None\<close> when a loop does not end.
\<close>

definition requested :: "string list \<Rightarrow> pod list \<Rightarrow> pod list" where
  "requested deployments pods = filter (\<lambda>pod. pod_name pod \<in> set deployments) pods"

definition getPodsWithBuildNumbers :: "string list \<Rightarrow> string \<Rightarrow> string \<Rightarrow> pod list option" where
  "getPodsWithBuildNumbers deployments podsOut yamlOut =
     (case parsePods podsOut of
        None \<Rightarrow> None
      | Some pods \<Rightarrow>
          (case exec_all batch_re yamlOut of
             None \<Rightarrow> None
           | Some ms \<Rightarrow> Some (assign_builds ms 0 (requested deployments pods))))"

section \<open>Execution gateway\<close>

text \<open>What \<^verbatim>\<open>timeLog\<close> prints, without the time stamp and the colours.\<close>

datatype message =
    NetworkErrorRetrying string nat
  | FatalOutOfRetries string
  | TimeoutReached string
  | Completed bool
  | DeploymentUpdated string "string option" string
  | FatalUpdating string
  | PodInState string string
  | FailedToStart nat nat string
  | AllUpToDate string
  | AlreadyConfigured string string
  | NotUpToDate string
  | ConfiguredToBuild string "string option"
  | PodRunningBuild pod

record exec_result =
  exec_error :: bool
  exec_stdout :: string
  exec_stderr :: string

definition maxExecRetries :: nat where
  "maxExecRetries = 30"

definition execDelay :: nat where
  "execDelay = 2000"

datatype gateway_event =
    Run                 \<comment> \<open>\<^verbatim>\<open>exec(command ...)\<close>\<close>
  | Log message
  | Wait nat            \<comment> \<open>\<^verbatim>\<open>setTimeout(..., execDelay)\<close>\<close>
  | Return string       \<comment> \<open>\<^verbatim>\<open>callback(stdout)\<close>\<close>
  | Handler             \<comment> \<open>\<^verbatim>\<open>onError()\<close>\<close>
  | ProcessExit nat     \<comment> \<open>\<^verbatim>\<open>process.exit(1)\<close>\<close>

definition exec_failed :: "exec_result \<Rightarrow> bool" where
  \<comment> \<open>\<^verbatim>\<open>error || stderr\<close>\<close>
  "exec_failed r = (exec_error r \<or> exec_stderr r \<noteq> [])"

text \<open>
  \<open>run n\<close> is what the command gives when \<open>n\<close> tries have failed before it. \<open>onError\<close> says
  whether the caller passed a handler; \<open>tryNumber\<close> is absent in every call from outside.
  The result lists what one call of \<^verbatim>\<open>execRetry\<close> does, to its end.
\<close>

function execRetry :: "(nat \<Rightarrow> exec_result) \<Rightarrow> string \<Rightarrow> bool \<Rightarrow> nat option \<Rightarrow> gateway_event list" where
  "execRetry run name onError tryNumber =
     (let tryNumber = (case tryNumber of None \<Rightarrow> 0 | Some n \<Rightarrow> n);
          r = run tryNumber
      in Run #
         (if exec_failed r then
            (let tryNumber = tryNumber + 1
             in if tryNumber > maxExecRetries then
                  (if onError then [Handler]
                   else [Log (FatalOutOfRetries name), ProcessExit 1])
                else Log (NetworkErrorRetrying name tryNumber) # Wait execDelay #
                     execRetry run name onError (Some tryNumber))
          else [Return (exec_stdout r)]))"
  by pat_completeness auto
termination
  by (relation "measure (\<lambda>(run, name, onError, tryNumber).
                   Suc maxExecRetries - (case tryNumber of None \<Rightarrow> 0 | Some n \<Rightarrow> n))")
     (auto split: option.splits)

section \<open>Global poll state\<close>

text \<open>
  \<^verbatim>\<open>parseDeployments\<close> captures \<^verbatim>\<open>desiredCount\<close> with \<^verbatim>\<open>([\d]+)\<close>, and the script only ever
  compares it to a count with \<^verbatim>\<open>==\<close>, which reads the digits as a number: the field holds
  that number. (A count of pods lies far below \<open>2 ^ 53\<close>, where the comparison of
  ECMAScript is exact.)
\<close>

record deployment =
  deployment_name :: string
  desiredCount :: nat

text \<open>
  The closure \<^verbatim>\<open>listener\<close> of \<^verbatim>\<open>healthCheckPods\<close> with the variables it captures. Two closures
  are different objects even when they capture the same values: \<open>listener_id\<close> numbers them in
  the order of their creation, and \<^verbatim>\<open>_.pull(pollingListeners, listener)\<close> goes by it.
\<close>

record listener =
  listener_id :: nat
  listener_deployment :: deployment
  listener_buildNumber :: string

text \<open>
  \<^verbatim>\<open>pollTimeout\<close> is the number 600 or the text behind \<^verbatim>\<open>--timeout=\<close>, which \<^verbatim>\<open>>\<close> reads as
  a number. The elapsed seconds are whole, so a fraction compares like the integer below it;
  a text that is no number gives \<^verbatim>\<open>NaN\<close>, and every comparison with it is false.
\<close>

datatype jsnumber = Num int | NaN

fun js_gt :: "int \<Rightarrow> jsnumber \<Rightarrow> bool" where
  "js_gt x (Num y) = (x > y)"
| "js_gt x NaN = False"

record poll_state =
  pollingStarted :: bool
  pollingTargets :: "string list"
  pollingListeners :: "listener list"
  pollingHasErrors :: bool
  pollTimeout :: jsnumber
  pollStarted :: "int option"
  closures :: nat              \<comment> \<open>listener closures created so far\<close>
  printed :: "message list"    \<comment> \<open>lines printed so far\<close>

definition pollInterval :: nat where
  "pollInterval = 5000"

definition initial_state :: poll_state where
  "initial_state =
     \<lparr>pollingStarted = False, pollingTargets = [], pollingListeners = [],
      pollingHasErrors = False, pollTimeout = Num 600, pollStarted = None,
      closures = 0, printed = []\<rparr>"

definition timeLog :: "message \<Rightarrow> poll_state \<Rightarrow> poll_state" where
  "timeLog line st = st\<lparr>printed := printed st @ [line]\<rparr>"

text \<open>
  How a handler leaves the process: \<^verbatim>\<open>process.exit(code)\<close>, a query handed to the gateway
  with the handler's callback waiting for it, a timer set for \<^verbatim>\<open>pollPods\<close>, a plain return,
  or an exception nobody catches.
\<close>

datatype control =
    Exited nat
  | Fetching "string list"   \<comment> \<open>\<^verbatim>\<open>getPodsWithBuildNumbers(pollingTargets, ...)\<close>\<close>
  | Scheduled nat            \<comment> \<open>\<^verbatim>\<open>setTimeout(pollPods, pollInterval)\<close>\<close>
  | Updating string string   \<comment> \<open>\<^verbatim>\<open>execRetry\<close> of the update of a deployment to a build\<close>
  | Returned
  | Uncaught string

section \<open>Health state machine\<close>

text \<open>
  The body of \<^verbatim>\<open>currentPods.forEach\<close> with the two counters it updates and the lines it
  prints. \<^verbatim>\<open>pod.build\<close> is a string or absent and \<^verbatim>\<open>buildNumber\<close> a string, so \<^verbatim>\<open>==\<close> holds
  when the build is there and is that string.
\<close>

definition check_pod :: "string \<Rightarrow> pod \<Rightarrow> nat \<times> nat \<times> message list \<Rightarrow> nat \<times> nat \<times> message list" where
  "check_pod buildNumber pod = (\<lambda>(totalPodsRunning, totalErrors, lines).
     if pod_build pod = Some buildNumber then
       if pod_state pod \<noteq> ''ContainerCreating'' \<and> pod_state pod \<noteq> ''Running''
          \<and> pod_state pod \<noteq> ''Pending'' \<and> pod_state pod \<noteq> ''Terminating''
       then (totalPodsRunning, totalErrors + 1, lines @ [PodInState (pod_id pod) (pod_state pod)])
       else if pod_state pod = ''Running'' \<and> pod_ready pod
       then (totalPodsRunning + 1, totalErrors, lines)
       else (totalPodsRunning, totalErrors, lines)
     else (totalPodsRunning, totalErrors, lines))"

definition count_pods :: "listener \<Rightarrow> pod list \<Rightarrow> nat \<times> nat \<times> message list" where
  "count_pods l pods =
     (let serviceName = deployment_name (listener_deployment l);
          currentPods = filter (\<lambda>pod. pod_name pod = serviceName) pods
      in fold (check_pod (listener_buildNumber l)) currentPods (0, 0, []))"

text \<open>One call \<^verbatim>\<open>listener(pods)\<close>.\<close>

definition listener_call :: "listener \<Rightarrow> pod list \<Rightarrow> poll_state \<Rightarrow> poll_state" where
  "listener_call l pods st0 =
     (let deployment = listener_deployment l;
          serviceName = deployment_name deployment;
          (totalPodsRunning, totalErrors, lines) = count_pods l pods;
          st = st0\<lparr>printed := printed st0 @ lines\<rparr>
      in if totalPodsRunning + totalErrors = desiredCount deployment then
           (let st = (if totalErrors > 0
                      then timeLog (FailedToStart totalErrors (desiredCount deployment) serviceName)
                             (st\<lparr>pollingHasErrors := True\<rparr>)
                      else timeLog (AllUpToDate serviceName) st);
                st = st\<lparr>pollingTargets := removeAll serviceName (pollingTargets st)\<rparr>
            in st\<lparr>pollingListeners :=
                     filter (\<lambda>x. listener_id x \<noteq> listener_id l) (pollingListeners st)\<rparr>)
         else st)"

text \<open>The test \<^verbatim>\<open>totalPodsRunning + totalErrors == deployment.desiredCount\<close> of the listener.\<close>

definition resolves :: "listener \<Rightarrow> pod list \<Rightarrow> bool" where
  "resolves l pods =
     (case count_pods l pods of
        (totalPodsRunning, totalErrors, lines) \<Rightarrow>
          totalPodsRunning + totalErrors = desiredCount (listener_deployment l))"

text \<open>
  The registered closures are different objects: their numbers differ, and each lies below
  the number of closures made so far.
\<close>

definition numbered :: "poll_state \<Rightarrow> bool" where
  "numbered st =
     (distinct (map listener_id (pollingListeners st))
      \<and> (\<forall>x \<in> set (pollingListeners st). listener_id x < closures st))"

section \<open>Convergence poller\<close>

fun join :: "string \<Rightarrow> string list \<Rightarrow> string" where
  "join sep [] = []"
| "join sep [x] = x"
| "join sep (x # y # ys) = x @ sep @ join sep (y # ys)"

definition finishUpdate :: "poll_state \<Rightarrow> control \<times> poll_state" where
  "finishUpdate st =
     (let st = timeLog (Completed (\<not> pollingHasErrors st)) st
      in if pollingHasErrors st then (Exited 1, st) else (Exited 0, st))"

text \<open>
  \<^verbatim>\<open>pollingListeners.forEach(listener => listener(pods))\<close>. \<^verbatim>\<open>forEach\<close> reads the length once,
  then visits the indices below it in order and calls the function for each index the array
  still has; a listener that resolves takes itself out of the very array with \<^verbatim>\<open>_.pull\<close>,
  which moves the later elements down. The result lists the listeners called, in order, and
  the state after the pass.
\<close>

function forEach_listener :: "pod list \<Rightarrow> nat \<Rightarrow> nat \<Rightarrow> poll_state \<Rightarrow> listener list \<times> poll_state" where
  "forEach_listener pods k len st =
     (if k < len then
        (if k < length (pollingListeners st) then
           (let l = pollingListeners st ! k;
                (called, st') = forEach_listener pods (Suc k) len (listener_call l pods st)
            in (l # called, st'))
         else forEach_listener pods (Suc k) len st)
      else ([], st))"
  by pat_completeness auto
termination
  by (relation "measure (\<lambda>(pods, k, len, st). len - k)") auto

definition dispatch :: "pod list \<Rightarrow> poll_state \<Rightarrow> listener list \<times> poll_state" where
  "dispatch pods st = forEach_listener pods 0 (length (pollingListeners st)) st"

text \<open>
  \<^verbatim>\<open>pollPods\<close> up to the query it sends; \<open>now1\<close> and \<open>now2\<close> are the two readings of the clock,
  in milliseconds. \<open>Fetching\<close> shows the names in \<^verbatim>\<open>pollingTargets\<close> at the call; the source
  hands the array itself to \<^verbatim>\<open>getPodsWithBuildNumbers\<close>, which filters with what the array
  holds when \<^verbatim>\<open>kubectl get pods\<close> has answered.
\<close>

definition start_of_poll :: "int \<Rightarrow> poll_state \<Rightarrow> int" where
  \<comment> \<open>\<^verbatim>\<open>pollStarted\<close> after \<^verbatim>\<open>if (!pollStarted) pollStarted = Math.floor(new Date() / 1000)\<close>\<close>
  "start_of_poll now1 st =
     (case pollStarted st of
        None \<Rightarrow> now1 div 1000
      | Some t \<Rightarrow> if t = 0 then now1 div 1000 else t)"

definition pollPods :: "int \<Rightarrow> int \<Rightarrow> poll_state \<Rightarrow> control \<times> poll_state" where
  "pollPods now1 now2 st0 =
     (let started = start_of_poll now1 st0;
          st = st0\<lparr>pollStarted := Some started\<rparr>
      in if js_gt (now2 div 1000 - started) (pollTimeout st) then
           (Exited 1, timeLog (TimeoutReached (join '', '' (pollingTargets st))) st)
         else (Fetching (pollingTargets st), st))"

text \<open>The callback \<^verbatim>\<open>pollPods\<close> gives to \<^verbatim>\<open>getPodsWithBuildNumbers\<close>.\<close>

definition pollPods_callback :: "bool \<Rightarrow> pod list \<Rightarrow> poll_state \<Rightarrow> control \<times> poll_state" where
  "pollPods_callback error pods st0 =
     (let st = (if \<not> error then snd (dispatch pods st0) else st0)
      in if length (pollingTargets st) = 0 then finishUpdate st
         else (Scheduled pollInterval, st))"

definition healthCheckPods :: "deployment \<Rightarrow> string \<Rightarrow> int \<Rightarrow> int \<Rightarrow> poll_state \<Rightarrow> control \<times> poll_state" where
  "healthCheckPods deployment buildNumber now1 now2 st0 =
     (let l = \<lparr>listener_id = closures st0, listener_deployment = deployment,
               listener_buildNumber = buildNumber\<rparr>;
          st = st0\<lparr>pollingListeners := pollingListeners st0 @ [l], closures := Suc (closures st0)\<rparr>
      in if \<not> pollingStarted st then pollPods now1 now2 (st\<lparr>pollingStarted := True\<rparr>)
         else (Returned, st))"

section \<open>Update driver\<close>

text \<open>
  The names the error handler of \<^verbatim>\<open>updateDeploymentBuildNumber\<close> can see: those of the
  function around it, those of the module and of its wrapper, and the globals of Node the
  script uses. The \<^verbatim>\<open>error\<close> of the \<^verbatim>\<open>catch\<close> clause and the parameters of the callback inside
  \<^verbatim>\<open>execRetry\<close> belong to other scopes, and the global object has no property of such a name.
\<close>

definition onError_scope :: "string list" where
  "onError_scope =
     [''deployment'', ''newBuildNumber'', ''originalBuild'', ''serviceName'',
      ''exec'', ''chalk'', ''timestamp'', ''async'', ''_'', ''namespace'', ''kubeConfig'',
      ''timeLog'', ''maxExecRetries'', ''execDelay'', ''execRetry'', ''parseDeployments'',
      ''parsePods'', ''getPods'', ''getPodsWithBuildNumbers'', ''getDeployments'',
      ''getNiceState'', ''getExtraParams'', ''getPodBuildNumber'', ''getDeploymentBuildNumber'',
      ''pollingStarted'', ''pollingTargets'', ''pollingListeners'', ''pollingHasErrors'',
      ''pollInterval'', ''pollTimeout'', ''pollStarted'', ''pollPods'', ''finishUpdate'',
      ''updateDeploymentBuildNumber'', ''healthCheckPods'',
      ''exports'', ''require'', ''module'', ''__filename'', ''__dirname'',
      ''console'', ''process'', ''setTimeout'', ''Math'', ''Date'']"

text \<open>The success callback of the update: the deployment goes to the poller.\<close>

definition update_callback :: "deployment \<Rightarrow> string \<Rightarrow> string option \<Rightarrow> int \<Rightarrow> int \<Rightarrow> poll_state \<Rightarrow> control \<times> poll_state" where
  "update_callback deployment newBuildNumber originalBuild now1 now2 st =
     healthCheckPods deployment newBuildNumber now1 now2
       (timeLog (DeploymentUpdated (deployment_name deployment) originalBuild newBuildNumber) st)"

text \<open>
  The error handler of the update, called when the retries are used up. Reading a name that
  no scope binds throws a \<^verbatim>\<open>ReferenceError\<close>; the handler runs from a callback of
  \<^verbatim>\<open>child_process\<close>, where nothing catches it.
\<close>

definition update_onError :: "deployment \<Rightarrow> poll_state \<Rightarrow> control \<times> poll_state" where
  "update_onError deployment st0 =
     (let serviceName = deployment_name deployment;
          st = timeLog (FatalUpdating serviceName) st0;
          st = st\<lparr>pollingTargets := removeAll serviceName (pollingTargets st)\<rparr>;
          st = st\<lparr>pollingHasErrors := True\<rparr>
      in if ''error'' \<notin> set onError_scope then (Uncaught ''ReferenceError: error is not defined'', st)
         else if ''stderr'' \<notin> set onError_scope then (Uncaught ''ReferenceError: stderr is not defined'', st)
         else if length (pollingTargets st) = 0 then finishUpdate st
         else (Returned, st))"

section \<open>Start of a rollout\<close>

text \<open>
  The callback \<^verbatim>\<open>main\<close> gives to \<^verbatim>\<open>getDeploymentBuildNumber\<close> for one argument of the command
  line: \<open>deployment\<close> is \<^verbatim>\<open>arg.split('=')\<close>, \<open>foundDeployment\<close> the deployment of that name,
  \<open>pods\<close> its pods at the start, and \<open>buildNumber\<close> the build of the deployment, absent when
  the extractor found none.
\<close>

definition main_callback :: "string list \<Rightarrow> deployment \<Rightarrow> pod list \<Rightarrow> string option \<Rightarrow> int \<Rightarrow> int \<Rightarrow> poll_state \<Rightarrow> control \<times> poll_state" where
  "main_callback deployment foundDeployment pods buildNumber now1 now2 st0 =
     (case deployment of
        serviceName # newBuild # others \<Rightarrow>
          (let st = st0\<lparr>pollingTargets := pollingTargets st0 @ [serviceName]\<rparr>
           in if Some newBuild = buildNumber then
                (let st = timeLog (AlreadyConfigured serviceName newBuild) st;
                     running = length (filter (\<lambda>pod. pod_build pod = buildNumber
                                                  \<and> pod_state pod = ''Running'' \<and> pod_ready pod) pods)
                 in if running = desiredCount foundDeployment
                    then (Returned, timeLog (AllUpToDate serviceName) st)
                    else healthCheckPods foundDeployment newBuild now1 now2
                           (timeLog (NotUpToDate serviceName) st))
              else (Updating serviceName newBuild, st))
      | [serviceName] \<Rightarrow>
          (Returned, fold (\<lambda>pod. timeLog (PodRunningBuild pod)) pods
                       (timeLog (ConfiguredToBuild serviceName buildNumber) st0))
      | [] \<Rightarrow> (Returned, st0))"

section \<open>Scenarios\<close>

text \<open>The events of \<open>n\<close> failed tries in a row, the first of them after \<open>t\<close> failures.\<close>

fun retries :: "string \<Rightarrow> nat \<Rightarrow> nat \<Rightarrow> gateway_event list" where
  "retries name t 0 = []"
| "retries name t (Suc n) =
     Run # Log (NetworkErrorRetrying name (Suc t)) # Wait execDelay # retries name (Suc t) n"

text \<open>A command that fails thirty times and then succeeds.\<close>

definition fails_30_times :: "nat \<Rightarrow> exec_result" where
  "fails_30_times n =
     \<lparr>exec_error = (n < 30), exec_stdout = ''deployment replaced'', exec_stderr = []\<rparr>"

text \<open>Two deployments rolled out to build 2 by one invocation, each with one pod wanted.\<close>

definition listener_a :: listener where
  "listener_a = \<lparr>listener_id = 0,
                  listener_deployment = \<lparr>deployment_name = ''a'', desiredCount = 1\<rparr>,
                  listener_buildNumber = ''2''\<rparr>"

definition listener_b :: listener where
  "listener_b = \<lparr>listener_id = 1,
                  listener_deployment = \<lparr>deployment_name = ''b'', desiredCount = 1\<rparr>,
                  listener_buildNumber = ''2''\<rparr>"

definition both_polling :: poll_state where
  "both_polling =
     \<lparr>pollingStarted = True, pollingTargets = [''a'', ''b''],
      pollingListeners = [listener_a, listener_b], pollingHasErrors = False,
      pollTimeout = Num 600, pollStarted = Some 1700000000, closures = 2, printed = []\<rparr>"

definition both_up :: "pod list" where
  "both_up =
     [\<lparr>pod_id = ''a-1-x'', pod_ready = True, pod_name = ''a'', pod_state = ''Running'',
       pod_restarts = ''0'', pod_build = Some ''2''\<rparr>,
      \<lparr>pod_id = ''b-1-y'', pod_ready = True, pod_name = ''b'', pod_state = ''Running'',
       pod_restarts = ''0'', pod_build = Some ''2''\<rparr>]"

text \<open>A pod of the new build that cannot pull its image.\<close>

definition pull_failure :: pod where
  "pull_failure =
     \<lparr>pod_id = ''a-1-x'', pod_ready = False, pod_name = ''a'', pod_state = ''ImagePullBackOff'',
      pod_restarts = ''0'', pod_build = Some ''2''\<rparr>"

text \<open>
  Three pods wanted, two of the new build up and one in error, next to a pod of the old
  build and a pod of another deployment.
\<close>

definition listener_app :: listener where
  "listener_app = \<lparr>listener_id = 0,
                    listener_deployment = \<lparr>deployment_name = ''app'', desiredCount = 3\<rparr>,
                    listener_buildNumber = ''42''\<rparr>"

definition app_pods :: "pod list" where
  "app_pods =
     [\<lparr>pod_id = ''app-1-a'', pod_ready = True, pod_name = ''app'', pod_state = ''Running'',
       pod_restarts = ''0'', pod_build = Some ''42''\<rparr>,
      \<lparr>pod_id = ''app-1-b'', pod_ready = True, pod_name = ''app'', pod_state = ''Running'',
       pod_restarts = ''0'', pod_build = Some ''42''\<rparr>,
      \<lparr>pod_id = ''app-1-c'', pod_ready = False, pod_name = ''app'', pod_state = ''Error'',
       pod_restarts = ''3'', pod_build = Some ''42''\<rparr>,
      \<lparr>pod_id = ''app-0-d'', pod_ready = True, pod_name = ''app'', pod_state = ''Running'',
       pod_restarts = ''0'', pod_build = Some ''41''\<rparr>,
      \<lparr>pod_id = ''web-1-e'', pod_ready = True, pod_name = ''web'', pod_state = ''Running'',
       pod_restarts = ''0'', pod_build = Some ''42''\<rparr>]"

definition app_polling :: poll_state where
  "app_polling =
     \<lparr>pollingStarted = True, pollingTargets = [''app'', ''web''],
      pollingListeners = [listener_app], pollingHasErrors = False,
      pollTimeout = Num 600, pollStarted = Some 1700000000, closures = 1, printed = []\<rparr>"

text \<open>A command that fails at every try.\<close>

definition never_answers :: "nat \<Rightarrow> exec_result" where
  "never_answers n =
     \<lparr>exec_error = True, exec_stdout = [], exec_stderr = ''connection refused''\<rparr>"

text \<open>
  The invocation \<^verbatim>\<open>kubeimage a=5 b=5\<close> when both deployments are configured to build 5
  already and the one pod each of them wants is still being created: the state after the
  callback for \<open>a\<close>, and the state after the callback for \<open>b\<close> that follows it.
\<close>

definition after_first_callback :: "control \<times> poll_state" where
  "after_first_callback =
     main_callback [''a'', ''5''] \<lparr>deployment_name = ''a'', desiredCount = 1\<rparr>
       [\<lparr>pod_id = ''a-1-x'', pod_ready = False, pod_name = ''a'',
         pod_state = ''ContainerCreating'', pod_restarts = ''0'', pod_build = Some ''5''\<rparr>]
       (Some ''5'') 1700000000000 1700000000000 initial_state"

definition after_second_callback :: "control \<times> poll_state" where
  "after_second_callback =
     main_callback [''b'', ''5''] \<lparr>deployment_name = ''b'', desiredCount = 1\<rparr>
       [\<lparr>pod_id = ''b-1-y'', pod_ready = False, pod_name = ''b'',
         pod_state = ''ContainerCreating'', pod_restarts = ''0'', pod_build = Some ''5''\<rparr>]
       (Some ''5'') 1700000000200 1700000000200 (snd after_first_callback)"

text \<open>Deployment \<open>a\<close> is polled while the update of deployment \<open>b\<close> is still retried.\<close>

definition a_polling_b_updating :: poll_state where
  "a_polling_b_updating =
     \<lparr>pollingStarted = True, pollingTargets = [''a'', ''b''],
      pollingListeners = [listener_a], pollingHasErrors = False,
      pollTimeout = Num 600, pollStarted = Some 1700000000, closures = 1, printed = []\<rparr>"

text \<open>A listing of \<^verbatim>\<open>kubectl get pods\<close> and the statuses of one and of three pods.\<close>

definition pods_listing :: string where
  "pods_listing =
     ''NAME READY STATUS RESTARTS AGE'' @ [CHR 0x0A] @
     ''app-1-a 1/1 Running 0 5m'' @ [CHR 0x0A] @
     ''app-1-b 0/1 Pending 0 1m'' @ [CHR 0x0A]"

definition one_status :: string where
  "one_status =
     ''containerStatuses:'' @ [CHR 0x0A] @ ''- image: reg/app:build-42'' @ [CHR 0x0A]"

definition three_statuses :: string where
  "three_statuses =
     ''containerStatuses:'' @ [CHR 0x0A] @ ''- image: reg/app:build-42'' @ [CHR 0x0A] @
     ''containerStatuses:'' @ [CHR 0x0A] @ ''- image: reg/app:build-43'' @ [CHR 0x0A] @
     ''containerStatuses:'' @ [CHR 0x0A] @ ''- image: reg/app:build-44'' @ [CHR 0x0A]"

text \<open>
  Deployment \<open>a\<close> has just been registered by \<^verbatim>\<open>healthCheckPods\<close>, which is about to call
  \<^verbatim>\<open>pollPods\<close> for the first time.
\<close>

definition a_registered :: poll_state where
  "a_registered =
     \<lparr>pollingStarted = True, pollingTargets = [''a''],
      pollingListeners = [listener_a], pollingHasErrors = False,
      pollTimeout = Num 600, pollStarted = None, closures = 1, printed = []\<rparr>"

section \<open>Build extractor: when nothing is found\<close>

declare rmatch.simps [simp del]

lemma first_some_None: "first_some xs = None \<longleftrightarrow> (\<forall>x\<in>set xs. x = None)"
  by (induction xs rule: first_some.induct) auto

lemma first_some_Some: "first_some xs = Some y \<Longrightarrow> Some y \<in> set xs"
  by (induction xs rule: first_some.induct) auto

lemma rmatch_Cap_last:
  "rmatch [Cap c 0] u = Some ([takeWhile (in_class c) u], dropWhile (in_class c) u)"
  by (simp add: rmatch.simps takeWhile_eq_take[symmetric] dropWhile_eq_drop[symmetric])

lemma in_class_Digit: "in_class Digit = is_digit"
  by (rule ext) simp

lemma rmatch_dash_digits:
  "rmatch [Lit ''-'', Cap Digit 0] u =
     (if take 1 u = ''-'' then Some ([takeWhile is_digit (drop 1 u)], dropWhile is_digit (drop 1 u)) else None)"
  using rmatch_Cap_last[of Digit "drop 1 u"] by (simp add: rmatch.simps(2) in_class_Digit)

lemma dash_in_run:
  assumes "P CHR ''-''"
  shows "(\<exists>n \<le> length (takeWhile P u). take 1 (drop n u) = ''-'') \<longleftrightarrow> CHR ''-'' \<in> set (takeWhile P u)"
proof
  assume "\<exists>n \<le> length (takeWhile P u). take 1 (drop n u) = ''-''"
  then obtain n where n: "n \<le> length (takeWhile P u)" "take 1 (drop n u) = ''-''" by blast
  from n(2) have lt: "n < length u" by (cases "n < length u") auto
  from n(2) lt have un: "u ! n = CHR ''-''"
    by (metis Cons_nth_drop_Suc list.inject take_Suc_Cons One_nat_def)
  show "CHR ''-'' \<in> set (takeWhile P u)"
  proof (cases "n < length (takeWhile P u)")
    case True
    then have "takeWhile P u ! n = u ! n" by (rule takeWhile_nth)
    with True un show ?thesis by (metis nth_mem)
  next
    case False
    with n(1) have "n = length (takeWhile P u)" by simp
    with lt have "\<not> P (u ! n)" using nth_length_takeWhile by blast
    with un assms show ?thesis by simp
  qed
next
  assume "CHR ''-'' \<in> set (takeWhile P u)"
  then obtain n where n: "n < length (takeWhile P u)" "takeWhile P u ! n = CHR ''-''"
    by (auto simp: in_set_conv_nth)
  then have un: "u ! n = CHR ''-''" by (simp add: takeWhile_nth)
  have "n < length u" using n(1) length_takeWhile_le[of P u] by simp
  then have "take 1 (drop n u) = ''-''" using un by (simp add: Cons_nth_drop_Suc[symmetric])
  with n(1) show "\<exists>n \<le> length (takeWhile P u). take 1 (drop n u) = ''-''" by (intro exI[of _ n]) simp
qed

lemma no_dash_in_run:
  assumes "P CHR ''-''"
  shows "(\<forall>n \<le> length (takeWhile P u). take 1 (drop n u) \<noteq> ''-'') \<longleftrightarrow> CHR ''-'' \<notin> set (takeWhile P u)"
  using dash_in_run[of P u] assms by blast

lemma rmatch_Rep_None:
  "rmatch (Rep c lo # r) s = None \<longleftrightarrow>
     (\<forall>n. lo \<le> n \<and> n \<le> length (takeWhile (in_class c) s) \<longrightarrow> rmatch r (drop n s) = None)"
  by (auto simp: rmatch.simps(3) first_some_None less_Suc_eq_le)

lemma rmatch_build_re_None:
  "rmatch build_re s = None \<longleftrightarrow>
     \<not> (take 6 s = ''image:'' \<and> CHR ''-'' \<in> set (takeWhile (\<lambda>x. \<not> line_terminator x) (drop 6 s)))"
proof -
  have P: "\<not> line_terminator CHR ''-''" by (simp add: line_terminator_def)
  have ac: "in_class AnyChar = (\<lambda>x. \<not> line_terminator x)" by (rule ext) simp
  have tail: "rmatch (Rep AnyChar 0 # [Lit ''-'', Cap Digit 0]) u = None \<longleftrightarrow>
          CHR ''-'' \<notin> set (takeWhile (\<lambda>x. \<not> line_terminator x) u)" for u
  proof -
    have "rmatch (Rep AnyChar 0 # [Lit ''-'', Cap Digit 0]) u = None \<longleftrightarrow>
          (\<forall>n \<le> length (takeWhile (\<lambda>x. \<not> line_terminator x) u). take 1 (drop n u) \<noteq> ''-'')"
      unfolding rmatch_Rep_None rmatch_dash_digits ac by auto
    also have "\<dots> \<longleftrightarrow> CHR ''-'' \<notin> set (takeWhile (\<lambda>x. \<not> line_terminator x) u)"
      using no_dash_in_run[of "\<lambda>x. \<not> line_terminator x" u] P by blast
    finally show ?thesis .
  qed
  show ?thesis
    unfolding build_re_def rmatch.simps(2) using tail[of "drop 6 s"]
    by (simp add: eval_nat_numeral)
qed

lemma search_build_re_None: "search build_re s = None \<longleftrightarrow> \<not> image_with_dash s"
proof (induction s)
  case Nil
  show ?case using rmatch_build_re_None[of "[]"] by simp
next
  case (Cons c cs)
  show ?case
  proof (cases "rmatch build_re (c # cs)")
    case None
    then show ?thesis using Cons rmatch_build_re_None[of "c # cs"] by simp
  next
    case (Some m)
    then have "rmatch build_re (c # cs) \<noteq> None" by simp
    then show ?thesis using Some rmatch_build_re_None[of "c # cs"] by simp
  qed
qed

lemma extract_build_NotFound: "extract_build out = NotFound \<longleftrightarrow> \<not> image_with_dash out"
  using search_build_re_None[of out] by (auto simp: extract_build_def split: option.splits)

text \<open>
  C10. Some output with an \<^verbatim>\<open>image:\<close> line whose only dash is not followed by a digit, here
  \<^verbatim>\<open>image: my-registry/app:latest\<close>, gives both extractors a match with the empty string as
  the build, since \<^verbatim>\<open>[\d]*\<close> may match nothing. They report that nothing was found exactly
  when the output has no \<^verbatim>\<open>image:\<close> followed by a dash on its line.
\<close>

theorem C10_empty_build:
  "getPodBuildNumber ''image: my-registry/app:latest'' = Found (Some '''')
   \<and> getDeploymentBuildNumber ''image: my-registry/app:latest'' = Found (Some '''')
   \<and> (getPodBuildNumber out = NotFound \<longleftrightarrow> \<not> image_with_dash out)
   \<and> (getDeploymentBuildNumber out = NotFound \<longleftrightarrow> \<not> image_with_dash out)"
proof -
  have "extract_build ''image: my-registry/app:latest'' = Found (Some '''')"
    by code_simp
  then show ?thesis
    by (simp add: getPodBuildNumber_def getDeploymentBuildNumber_def extract_build_NotFound)
qed

theorem C10_empty_build_witness:
  "getPodBuildNumber ''image: registry/app:latest'' = NotFound
   \<and> \<not> image_with_dash ''image: registry/app:latest''
   \<and> getPodBuildNumber ''image: registry/app:build-42'' = Found (Some ''42'')"
proof -
  have a: "\<not> image_with_dash ''image: registry/app:latest''" by code_simp
  have b: "getPodBuildNumber ''image: registry/app:build-42'' = Found (Some ''42'')" by code_simp
  show ?thesis using C10_empty_build[of "''image: registry/app:latest''"] a b by simp
qed

section \<open>Health state machine: counting and resolution\<close>

lemma fold_check_pod:
  "fold (check_pod b) ps (r, e, ls) =
     (r + length (filter (\<lambda>p. pod_build p = Some b \<and> pod_state p = ''Running'' \<and> pod_ready p) ps),
      e + length (filter (\<lambda>p. pod_build p = Some b
                 \<and> pod_state p \<notin> set [''ContainerCreating'', ''Running'', ''Pending'', ''Terminating'']) ps),
      ls @ map (\<lambda>p. PodInState (pod_id p) (pod_state p))
             (filter (\<lambda>p. pod_build p = Some b
                 \<and> pod_state p \<notin> set [''ContainerCreating'', ''Running'', ''Pending'', ''Terminating'']) ps))"
  by (induction ps arbitrary: r e ls) (auto simp: check_pod_def)

text \<open>
  C2, as the listener has it. Among the pods of a snapshot whose name is the deployment's and
  whose build is the expected one, \<^verbatim>\<open>totalPodsRunning\<close> counts those that are \<^verbatim>\<open>Running\<close> and
  ready, and \<^verbatim>\<open>totalErrors\<close> counts those whose state is none of \<^verbatim>\<open>ContainerCreating\<close>,
  \<^verbatim>\<open>Running\<close>, \<^verbatim>\<open>Pending\<close> and \<^verbatim>\<open>Terminating\<close>; every other pod enters neither total.
\<close>

theorem C2_classification:
  "fst (count_pods l pods) =
     length (filter (\<lambda>p. pod_name p = deployment_name (listener_deployment l)
                        \<and> pod_build p = Some (listener_buildNumber l)
                        \<and> pod_state p = ''Running'' \<and> pod_ready p) pods)
   \<and> fst (snd (count_pods l pods)) =
     length (filter (\<lambda>p. pod_name p = deployment_name (listener_deployment l)
                        \<and> pod_build p = Some (listener_buildNumber l)
                        \<and> pod_state p \<notin> set [''ContainerCreating'', ''Running'', ''Pending'', ''Terminating'']) pods)"
  by (simp add: count_pods_def fold_check_pod Let_def del: set_simps)

theorem C2_classification_witness:
  "fst (count_pods listener_app app_pods) = 2 \<and> fst (snd (count_pods listener_app app_pods)) = 1"
  using C2_classification[of listener_app app_pods]
  by (simp add: listener_app_def app_pods_def)

text \<open>
  The claim as written fails: a pod of the expected build in state \<^verbatim>\<open>ImagePullBackOff\<close>, which
  is neither \<^verbatim>\<open>Error\<close> nor \<^verbatim>\<open>CrashLoopBackOff\<close>, is counted in \<^verbatim>\<open>totalErrors\<close>.
\<close>

theorem C2_counterexample:
  "fst (snd (count_pods listener_a [pull_failure])) = 1
   \<and> pod_name pull_failure = deployment_name (listener_deployment listener_a)
   \<and> pod_build pull_failure = Some (listener_buildNumber listener_a)
   \<and> pod_state pull_failure \<notin> {''Error'', ''CrashLoopBackOff''}"
  by (simp add: count_pods_def check_pod_def listener_a_def pull_failure_def)

section \<open>Execution gateway: retries\<close>

declare execRetry.simps [simp del]

lemma execRetry_absent: "execRetry run name h None = execRetry run name h (Some 0)"
  by (subst execRetry.simps, subst (2) execRetry.simps) simp

lemma execRetry_exhausted:
  "t + n = maxExecRetries \<Longrightarrow> (\<forall>i. t \<le> i \<and> i \<le> maxExecRetries \<longrightarrow> exec_failed (run i)) \<Longrightarrow>
   execRetry run name h (Some t) =
     retries name t n @ Run # (if h then [Handler] else [Log (FatalOutOfRetries name), ProcessExit 1])"
proof (induction n arbitrary: t)
  case 0
  then show ?case by (subst execRetry.simps) simp
next
  case (Suc n)
  have f: "exec_failed (run t)" using Suc.prems by simp
  have lt: "\<not> Suc t > maxExecRetries" using Suc.prems by simp
  have "execRetry run name h (Some (Suc t)) =
     retries name (Suc t) n @ Run # (if h then [Handler] else [Log (FatalOutOfRetries name), ProcessExit 1])"
    using Suc.prems by (intro Suc.IH) auto
  then show ?case using f lt by (subst execRetry.simps) (simp add: Let_def)
qed

lemma execRetry_succeeds:
  "t + n = k \<Longrightarrow> k \<le> maxExecRetries \<Longrightarrow> (\<forall>i. t \<le> i \<and> i < k \<longrightarrow> exec_failed (run i)) \<Longrightarrow>
   \<not> exec_failed (run k) \<Longrightarrow>
   execRetry run name h (Some t) = retries name t n @ [Run, Return (exec_stdout (run k))]"
proof (induction n arbitrary: t)
  case 0
  then show ?case by (subst execRetry.simps) simp
next
  case (Suc n)
  have f: "exec_failed (run t)" using Suc.prems by simp
  have lt: "\<not> Suc t > maxExecRetries" using Suc.prems by simp
  have "execRetry run name h (Some (Suc t)) = retries name (Suc t) n @ [Run, Return (exec_stdout (run k))]"
    using Suc.prems by (intro Suc.IH) auto
  then show ?case using f lt by (subst execRetry.simps) (simp add: Let_def)
qed

lemma retries_count:
  "count_list (retries name t n) Handler = 0"
  "count_list (retries name t n) (ProcessExit c) = 0"
  "count_list (retries name t n) Run = n"
  "count_list (retries name t n) (Wait d) = (if d = execDelay then n else 0)"
  by (induction n arbitrary: t) auto

lemma retries_no_Return: "Return out \<notin> set (retries name t n)"
  by (induction n arbitrary: t) auto

text \<open>
  C9, as the gateway has it. The constants are 30 retries and 2000 ms. A command that
  fails at every try is run 31 times, with 30 waits of 2000 ms and no other wait; then the
  handler of the caller is called once and the process is not left, or, when there is no
  handler, the process is left once with status 1. A command whose first success comes after
  at most 30 failures hands its output to the callback, and neither the handler nor the exit
  is reached.
\<close>

theorem C9_retries:
  "maxExecRetries = 30 \<and> execDelay = 2000
   \<and> ((\<forall>i. i \<le> maxExecRetries \<longrightarrow> exec_failed (run i)) \<longrightarrow>
        count_list (execRetry run name onError None) Run = Suc maxExecRetries
        \<and> count_list (execRetry run name onError None) (Wait d)
            = (if d = execDelay then maxExecRetries else 0)
        \<and> count_list (execRetry run name onError None) Handler = (if onError then 1 else 0)
        \<and> count_list (execRetry run name onError None) (ProcessExit 1) = (if onError then 0 else 1)
        \<and> Return out \<notin> set (execRetry run name onError None))
   \<and> (k \<le> maxExecRetries \<and> (\<forall>i. i < k \<longrightarrow> exec_failed (run i)) \<and> \<not> exec_failed (run k) \<longrightarrow>
        count_list (execRetry run name onError None) Run = Suc k
        \<and> count_list (execRetry run name onError None) Handler = 0
        \<and> count_list (execRetry run name onError None) (ProcessExit c) = 0
        \<and> last (execRetry run name onError None) = Return (exec_stdout (run k)))"
proof -
  have cst: "maxExecRetries = 30 \<and> execDelay = 2000"
    by (simp add: maxExecRetries_def execDelay_def)
  have exh: "(\<forall>i. i \<le> maxExecRetries \<longrightarrow> exec_failed (run i)) \<longrightarrow>
        count_list (execRetry run name onError None) Run = Suc maxExecRetries
        \<and> count_list (execRetry run name onError None) (Wait d)
            = (if d = execDelay then maxExecRetries else 0)
        \<and> count_list (execRetry run name onError None) Handler = (if onError then 1 else 0)
        \<and> count_list (execRetry run name onError None) (ProcessExit 1) = (if onError then 0 else 1)
        \<and> Return out \<notin> set (execRetry run name onError None)"
  proof
    assume f: "\<forall>i. i \<le> maxExecRetries \<longrightarrow> exec_failed (run i)"
    have "execRetry run name onError None =
            retries name 0 maxExecRetries @ Run #
              (if onError then [Handler] else [Log (FatalOutOfRetries name), ProcessExit 1])"
      unfolding execRetry_absent using f by (intro execRetry_exhausted) auto
    then show "count_list (execRetry run name onError None) Run = Suc maxExecRetries
        \<and> count_list (execRetry run name onError None) (Wait d)
            = (if d = execDelay then maxExecRetries else 0)
        \<and> count_list (execRetry run name onError None) Handler = (if onError then 1 else 0)
        \<and> count_list (execRetry run name onError None) (ProcessExit 1) = (if onError then 0 else 1)
        \<and> Return out \<notin> set (execRetry run name onError None)"
      by (simp add: retries_count retries_no_Return)
  qed
  have ok: "k \<le> maxExecRetries \<and> (\<forall>i. i < k \<longrightarrow> exec_failed (run i)) \<and> \<not> exec_failed (run k) \<longrightarrow>
        count_list (execRetry run name onError None) Run = Suc k
        \<and> count_list (execRetry run name onError None) Handler = 0
        \<and> count_list (execRetry run name onError None) (ProcessExit c) = 0
        \<and> last (execRetry run name onError None) = Return (exec_stdout (run k))"
  proof
    assume h: "k \<le> maxExecRetries \<and> (\<forall>i. i < k \<longrightarrow> exec_failed (run i)) \<and> \<not> exec_failed (run k)"
    have "execRetry run name onError None = retries name 0 k @ [Run, Return (exec_stdout (run k))]"
      unfolding execRetry_absent using h by (intro execRetry_succeeds) auto
    then show "count_list (execRetry run name onError None) Run = Suc k
        \<and> count_list (execRetry run name onError None) Handler = 0
        \<and> count_list (execRetry run name onError None) (ProcessExit c) = 0
        \<and> last (execRetry run name onError None) = Return (exec_stdout (run k))"
      by (simp add: retries_count)
  qed
  from cst exh ok show ?thesis by blast
qed

theorem C9_retries_witness:
  "exec_failed (never_answers 0)
   \<and> count_list (execRetry never_answers ''get pods'' False None) Run = 31
   \<and> count_list (execRetry never_answers ''get pods'' False None) (Wait 2000) = 30
   \<and> count_list (execRetry never_answers ''get pods'' False None) (ProcessExit 1) = 1
   \<and> count_list (execRetry never_answers ''get pods'' True None) Handler = 1
   \<and> \<not> exec_failed (fails_30_times 30)
   \<and> last (execRetry fails_30_times ''update deployment a'' True None) = Return ''deployment replaced''"
proof -
  have a: "\<forall>i. i \<le> maxExecRetries \<longrightarrow> exec_failed (never_answers i)"
    by (simp add: exec_failed_def never_answers_def)
  have b: "(30::nat) \<le> maxExecRetries \<and> (\<forall>i. i < 30 \<longrightarrow> exec_failed (fails_30_times i))
             \<and> \<not> exec_failed (fails_30_times 30)"
    by (simp add: exec_failed_def fails_30_times_def maxExecRetries_def)
  have c: "maxExecRetries = 30 \<and> execDelay = 2000"
    by (simp add: maxExecRetries_def execDelay_def)
  have n: "count_list (execRetry never_answers ''get pods'' False None) Run = Suc maxExecRetries
        \<and> count_list (execRetry never_answers ''get pods'' False None) (Wait 2000)
            = (if 2000 = execDelay then maxExecRetries else 0)
        \<and> count_list (execRetry never_answers ''get pods'' False None) Handler = (if False then 1 else 0)
        \<and> count_list (execRetry never_answers ''get pods'' False None) (ProcessExit 1) = (if False then 0 else 1)
        \<and> Return [] \<notin> set (execRetry never_answers ''get pods'' False None)"
    using C9_retries[of never_answers "''get pods''" False 2000 "[]" 0 0] a by blast
  have h: "count_list (execRetry never_answers ''get pods'' True None) Handler = (if True then 1 else 0)"
    using C9_retries[of never_answers "''get pods''" True 2000 "[]" 0 0] a by blast
  have s: "last (execRetry fails_30_times ''update deployment a'' True None)
             = Return (exec_stdout (fails_30_times 30))"
    using C9_retries[of fails_30_times "''update deployment a''" True 2000 "[]" 30 0] b by blast
  have e: "exec_stdout (fails_30_times 30) = ''deployment replaced''"
    by (simp add: fails_30_times_def)
  have f: "exec_failed (never_answers 0)" using a by simp
  show ?thesis using n h s e f b c by simp
qed

text \<open>
  The claim as written fails: a command that has failed at each of 30 tries is tried once
  more, and when that try succeeds the handler is never called.
\<close>

theorem C9_counterexample:
  "map (\<lambda>i. exec_failed (fails_30_times i)) [0 ..< 30] = replicate 30 True
   \<and> count_list (execRetry fails_30_times ''update deployment a'' True None) Handler = 0
   \<and> count_list (execRetry fails_30_times ''update deployment a'' True None) Run = 31
   \<and> last (execRetry fails_30_times ''update deployment a'' True None) = Return ''deployment replaced''"
proof -
  have f: "\<And>i. i < 30 \<Longrightarrow> exec_failed (fails_30_times i)"
    by (simp add: exec_failed_def fails_30_times_def)
  have "map (\<lambda>i. exec_failed (fails_30_times i)) [0 ..< 30] = map (\<lambda>i. True) [0 ..< 30]"
    by (rule map_cong) (simp_all add: f)
  then have m: "map (\<lambda>i. exec_failed (fails_30_times i)) [0 ..< 30] = replicate 30 True"
    by (simp add: map_replicate_const)
  have "execRetry fails_30_times ''update deployment a'' True None
          = retries ''update deployment a'' 0 30 @ [Run, Return (exec_stdout (fails_30_times 30))]"
    unfolding execRetry_absent
    by (rule execRetry_succeeds) (simp_all add: f maxExecRetries_def exec_failed_def fails_30_times_def)
  then show ?thesis using m by (simp add: retries_count fails_30_times_def)
qed

section \<open>Convergence poller: dispatch and the active targets\<close>

declare forEach_listener.simps [simp del]

lemma listener_call_targets:
  "pollingTargets (listener_call l pods st) = pollingTargets st
   \<or> pollingTargets (listener_call l pods st)
       = removeAll (deployment_name (listener_deployment l)) (pollingTargets st)"
  by (auto simp: listener_call_def Let_def timeLog_def split: prod.splits)

lemma listener_call_subseq: "subseq (pollingTargets (listener_call l pods st)) (pollingTargets st)"
  using listener_call_targets[of l pods st] by (auto simp: removeAll_filter_not_eq)

lemma forEach_listener_subseq:
  "subseq (pollingTargets (snd (forEach_listener pods k len st))) (pollingTargets st)"
proof (induction pods k len st rule: forEach_listener.induct)
  case (1 pods k len st)
  show ?case
  proof (cases "k < len")
    case False
    then show ?thesis by (subst forEach_listener.simps) simp
  next
    case True
    show ?thesis
    proof (cases "k < length (pollingListeners st)")
      case False
      with True 1(2) show ?thesis by (subst forEach_listener.simps) simp
    next
      case inb: True
      have "subseq (pollingTargets (snd (forEach_listener pods (Suc k) len
                      (listener_call (pollingListeners st ! k) pods st))))
              (pollingTargets (listener_call (pollingListeners st ! k) pods st))"
        using 1(1)[OF True inb] by simp
      then have "subseq (pollingTargets (snd (forEach_listener pods (Suc k) len
                      (listener_call (pollingListeners st ! k) pods st))))
              (pollingTargets st)"
        using listener_call_subseq subseq_order.order_trans by blast
      with True inb show ?thesis
        by (subst forEach_listener.simps) (simp add: Let_def case_prod_beta)
    qed
  qed
qed

text \<open>
  C5, as the poller has it. A tick adds no target: \<^verbatim>\<open>pollPods\<close> leaves \<^verbatim>\<open>pollingTargets\<close> as
  it is, and after the callback on the snapshot the list is what is left of the old one
  when some of its names are taken out. Every tick checks the deadline first and leaves the
  process with status 1 exactly when it has passed, sending the query otherwise; every
  callback checks the list after the dispatch and leaves the process exactly when it is
  empty, setting the timer for the next tick otherwise.
\<close>

theorem C5_tick:
  "subseq (pollingTargets (snd (pollPods_callback error pods st))) (pollingTargets st)
   \<and> pollingTargets (snd (pollPods now1 now2 st)) = pollingTargets st
   \<and> (fst (pollPods now1 now2 st) = Exited 1
        \<longleftrightarrow> js_gt (now2 div 1000 - start_of_poll now1 st) (pollTimeout st))
   \<and> (fst (pollPods now1 now2 st) = Fetching (pollingTargets st)
        \<longleftrightarrow> \<not> js_gt (now2 div 1000 - start_of_poll now1 st) (pollTimeout st))
   \<and> (fst (pollPods_callback error pods st)
         = Exited (if pollingHasErrors (snd (pollPods_callback error pods st)) then 1 else 0)
        \<longleftrightarrow> pollingTargets (snd (pollPods_callback error pods st)) = [])
   \<and> (fst (pollPods_callback error pods st) = Scheduled pollInterval
        \<longleftrightarrow> pollingTargets (snd (pollPods_callback error pods st)) \<noteq> [])"
  using forEach_listener_subseq[of pods 0 "length (pollingListeners st)" st]
  by (auto simp: pollPods_callback_def pollPods_def dispatch_def finishUpdate_def Let_def timeLog_def)

theorem C5_tick_witness:
  "pollPods_callback False both_up both_polling
     = (Scheduled 5000,
        both_polling\<lparr>pollingTargets := [''b''], pollingListeners := [listener_b],
                      printed := [AllUpToDate ''a'']\<rparr>)
   \<and> subseq [''b''] (pollingTargets both_polling)
   \<and> fst (pollPods 1700000601000 1700000601500 both_polling) = Exited 1
   \<and> fst (pollPods 1700000005000 1700000005000 both_polling) = Fetching [''a'', ''b'']
   \<and> fst (pollPods_callback False (rev both_up) (snd (pollPods_callback False both_up both_polling)))
       = Exited 0"
proof -
  have d: "dispatch both_up both_polling
             = ([listener_a], both_polling\<lparr>pollingTargets := [''b''], pollingListeners := [listener_b],
                                           printed := [AllUpToDate ''a'']\<rparr>)"
    by (simp add: dispatch_def forEach_listener.simps both_polling_def both_up_def listener_a_def
          listener_b_def listener_call_def count_pods_def check_pod_def timeLog_def)
  have c: "pollPods_callback False both_up both_polling
     = (Scheduled 5000,
        both_polling\<lparr>pollingTargets := [''b''], pollingListeners := [listener_b],
                      printed := [AllUpToDate ''a'']\<rparr>)"
    by (simp add: pollPods_callback_def d pollInterval_def)
  have e: "pollingTargets (snd (pollPods_callback False (rev both_up)
                                  (snd (pollPods_callback False both_up both_polling)))) = []"
    unfolding c
    by (simp add: pollPods_callback_def dispatch_def forEach_listener.simps both_polling_def
          both_up_def listener_b_def listener_call_def count_pods_def check_pod_def timeLog_def
          finishUpdate_def)
  have f: "\<not> pollingHasErrors (snd (pollPods_callback False (rev both_up)
                                  (snd (pollPods_callback False both_up both_polling))))"
    unfolding c
    by (simp add: pollPods_callback_def dispatch_def forEach_listener.simps both_polling_def
          both_up_def listener_b_def listener_call_def count_pods_def check_pod_def timeLog_def
          finishUpdate_def)
  have g: "js_gt (1700000601500 div 1000 - start_of_poll 1700000601000 both_polling) (pollTimeout both_polling)"
          "\<not> js_gt (1700000005000 div 1000 - start_of_poll 1700000005000 both_polling) (pollTimeout both_polling)"
    by (simp_all add: start_of_poll_def both_polling_def)
  have t: "pollingTargets both_polling = [''a'', ''b'']" by (simp add: both_polling_def)
  show ?thesis
    using C5_tick[where error = False and pods = both_up and st = both_polling
                    and ?now1.0 = 1700000601000 and ?now2.0 = 1700000601500]
          C5_tick[where error = False and pods = "rev both_up"
                    and st = "snd (pollPods_callback False both_up both_polling)"
                    and ?now1.0 = 1700000005000 and ?now2.0 = 1700000005000]
          C5_tick[where error = False and pods = both_up and st = both_polling
                    and ?now1.0 = 1700000005000 and ?now2.0 = 1700000005000]
          c e f g t
    by simp
qed

text \<open>
  No handler but the callback of \<^verbatim>\<open>main\<close> puts a name into \<^verbatim>\<open>pollingTargets\<close>.
\<close>

lemma others_add_no_target:
  "set (pollingTargets (snd (healthCheckPods deployment buildNumber now1 now2 st)))
     \<subseteq> set (pollingTargets st)"
  "set (pollingTargets (snd (update_callback deployment buildNumber originalBuild now1 now2 st)))
     \<subseteq> set (pollingTargets st)"
  "set (pollingTargets (snd (update_onError deployment st))) \<subseteq> set (pollingTargets st)"
  by (auto simp: healthCheckPods_def update_callback_def update_onError_def onError_scope_def
        pollPods_def Let_def timeLog_def)

text \<open>
  The claim as written fails: \<^verbatim>\<open>main\<close> pushes each target from the callback of that
  deployment's own query, and the first of these callbacks starts the loop. The callback for
  \<open>b\<close> finds the loop started and its first tick done, and adds \<open>b\<close>.
\<close>

theorem C5_counterexample:
  "pollingStarted (snd after_first_callback)
   \<and> fst after_first_callback = Fetching [''a'']
   \<and> pollingTargets (snd after_first_callback) = [''a'']
   \<and> pollingTargets (snd after_second_callback) = [''a'', ''b'']"
  by (simp add: after_second_callback_def after_first_callback_def main_callback_def
        healthCheckPods_def pollPods_def start_of_poll_def initial_state_def timeLog_def)

text \<open>
  C4 at two registered listeners of which the first resolves on the snapshot: taking itself
  out of the array moves the second to index 0, \<^verbatim>\<open>forEach\<close> goes on at index 1, and the
  second listener, still registered after the pass, has not been called in it.
\<close>

theorem C4_dispatch_skips:
  assumes "pollingListeners st = [l1, l2]"
    and "listener_id l1 \<noteq> listener_id l2"
    and "count_pods l1 pods = (succeeded, failed, lines)"
    and "succeeded + failed = desiredCount (listener_deployment l1)"
  shows "fst (dispatch pods st) = [l1] \<and> pollingListeners (snd (dispatch pods st)) = [l2]"
proof -
  have r: "pollingListeners (listener_call l1 pods st) = [l2]"
    using assms by (simp add: listener_call_def Let_def timeLog_def)
  have "forEach_listener pods (Suc (Suc 0)) (Suc (Suc 0)) (listener_call l1 pods st)
          = ([], listener_call l1 pods st)"
    by (subst forEach_listener.simps) simp
  then have "forEach_listener pods (Suc 0) (Suc (Suc 0)) (listener_call l1 pods st)
          = ([], listener_call l1 pods st)"
    using r by (subst forEach_listener.simps) simp
  then have "forEach_listener pods 0 (Suc (Suc 0)) st = ([l1], listener_call l1 pods st)"
    using assms(1) by (subst forEach_listener.simps) simp
  then show ?thesis using assms(1) r by (simp add: dispatch_def)
qed

theorem C4_dispatch_skips_witness:
  "pollingListeners both_polling = [listener_a, listener_b]
   \<and> listener_id listener_a \<noteq> listener_id listener_b
   \<and> count_pods listener_a both_up = (1, 0, [])
   \<and> count_pods listener_b both_up = (1, 0, [])
   \<and> fst (dispatch both_up both_polling) = [listener_a]
   \<and> pollingListeners (snd (dispatch both_up both_polling)) = [listener_b]"
proof -
  have a: "pollingListeners both_polling = [listener_a, listener_b]"
    by (simp add: both_polling_def)
  have b: "listener_id listener_a \<noteq> listener_id listener_b"
    by (simp add: listener_a_def listener_b_def)
  have c: "count_pods listener_a both_up = (1, 0, [])"
    by (simp add: count_pods_def check_pod_def listener_a_def both_up_def)
  have d: "count_pods listener_b both_up = (1, 0, [])"
    by (simp add: count_pods_def check_pod_def listener_b_def both_up_def)
  have e: "1 + 0 = desiredCount (listener_deployment listener_a)"
    by (simp add: listener_a_def)
  show ?thesis using C4_dispatch_skips[OF a b c e] a b c d by simp
qed

text \<open>
  What the pass does keep: it calls registered listeners only, so a listener that has taken
  itself out of \<^verbatim>\<open>pollingListeners\<close> is not called again, neither later in the pass nor in a
  later one.
\<close>

lemma listener_call_listeners:
  "set (pollingListeners (listener_call l pods st)) \<subseteq> set (pollingListeners st)"
  by (auto simp: listener_call_def Let_def timeLog_def split: prod.splits if_splits)

lemma forEach_listener_called:
  "set (fst (forEach_listener pods k len st)) \<subseteq> set (pollingListeners st)"
proof (induction pods k len st rule: forEach_listener.induct)
  case (1 pods k len st)
  show ?case
  proof (cases "k < len")
    case False
    then show ?thesis by (subst forEach_listener.simps) simp
  next
    case True
    show ?thesis
    proof (cases "k < length (pollingListeners st)")
      case False
      with True 1(2) show ?thesis by (subst forEach_listener.simps) simp
    next
      case inb: True
      let ?l = "pollingListeners st ! k"
      have "set (fst (forEach_listener pods (Suc k) len (listener_call ?l pods st)))
              \<subseteq> set (pollingListeners (listener_call ?l pods st))"
        using 1(1)[OF True inb] by simp
      then have rest: "set (fst (forEach_listener pods (Suc k) len (listener_call ?l pods st)))
              \<subseteq> set (pollingListeners st)"
        using listener_call_listeners by blast
      have here: "?l \<in> set (pollingListeners st)" using inb by simp
      from True inb rest here show ?thesis
        by (subst forEach_listener.simps) (simp add: Let_def case_prod_beta)
    qed
  qed
qed

lemma dispatch_calls_registered:
  "l \<notin> set (pollingListeners st) \<Longrightarrow> l \<notin> set (fst (dispatch pods st))"
  using forEach_listener_called[of pods 0 "length (pollingListeners st)" st]
  by (auto simp: dispatch_def)

lemma count_pods_totals:
  "fst (count_pods l pods) =
     length (filter (\<lambda>p. pod_name p = deployment_name (listener_deployment l)
                        \<and> pod_build p = Some (listener_buildNumber l)
                        \<and> pod_state p = ''Running'' \<and> pod_ready p) pods)"
  "fst (snd (count_pods l pods)) =
     length (filter (\<lambda>p. pod_name p = deployment_name (listener_deployment l)
                        \<and> pod_build p = Some (listener_buildNumber l)
                        \<and> pod_state p \<notin> set [''ContainerCreating'', ''Running'', ''Pending'', ''Terminating'']) pods)"
  by (simp_all add: count_pods_def fold_check_pod Let_def del: set_simps)

lemma listener_call_effect:
  "pollingListeners (listener_call l pods st) =
     (if resolves l pods then filter (\<lambda>x. listener_id x \<noteq> listener_id l) (pollingListeners st)
      else pollingListeners st)"
  "pollingTargets (listener_call l pods st) =
     (if resolves l pods then removeAll (deployment_name (listener_deployment l)) (pollingTargets st)
      else pollingTargets st)"
  "pollingHasErrors (listener_call l pods st) =
     (pollingHasErrors st \<or> (resolves l pods \<and> 0 < fst (snd (count_pods l pods))))"
  by (auto simp: listener_call_def resolves_def Let_def timeLog_def split: prod.splits)

lemma filter_by_id:
  assumes "distinct (map listener_id ls)" and "l \<in> set ls"
  shows "filter (\<lambda>x. listener_id x \<noteq> listener_id l) ls = filter (\<lambda>x. x \<noteq> l) ls"
proof (rule filter_cong)
  show "ls = ls" by simp
next
  fix x assume "x \<in> set ls"
  then show "(listener_id x \<noteq> listener_id l) = (x \<noteq> l)"
    using assms by (auto simp: distinct_map dest: inj_onD)
qed

lemma forEach_listener_listeners:
  "distinct (map listener_id (pollingListeners st)) \<Longrightarrow>
   pollingListeners (snd (forEach_listener pods k len st)) =
     filter (\<lambda>x. \<not> (x \<in> set (fst (forEach_listener pods k len st)) \<and> resolves x pods))
       (pollingListeners st)"
proof (induction pods k len st rule: forEach_listener.induct)
  case (1 pods k len st)
  show ?case
  proof (cases "k < len")
    case False
    then show ?thesis by (subst (1 2) forEach_listener.simps) simp
  next
    case True
    show ?thesis
    proof (cases "k < length (pollingListeners st)")
      case False
      with True 1(2)[OF True False 1(3)] show ?thesis
        by (subst (1 2) forEach_listener.simps) simp
    next
      case inb: True
      let ?l = "pollingListeners st ! k"
      let ?st1 = "listener_call ?l pods st"
      let ?r = "forEach_listener pods (Suc k) len ?st1"
      have mem: "?l \<in> set (pollingListeners st)" using inb by simp
      have d1: "distinct (map listener_id (pollingListeners ?st1))"
        using 1(3) by (simp add: listener_call_effect distinct_map_filter)
      have ih: "pollingListeners (snd ?r) =
          filter (\<lambda>x. \<not> (x \<in> set (fst ?r) \<and> resolves x pods)) (pollingListeners ?st1)"
        using 1(1)[OF True inb refl d1] .
      have unf: "forEach_listener pods k len st = (?l # fst ?r, snd ?r)"
        using True inb by (subst forEach_listener.simps) (simp add: Let_def case_prod_beta)
      have "filter (\<lambda>x. \<not> (x \<in> set (fst ?r) \<and> resolves x pods)) (pollingListeners ?st1)
          = filter (\<lambda>x. \<not> (x \<in> set (?l # fst ?r) \<and> resolves x pods)) (pollingListeners st)"
      proof (cases "resolves ?l pods")
        case True
        then have "pollingListeners ?st1 = filter (\<lambda>x. x \<noteq> ?l) (pollingListeners st)"
          using filter_by_id[OF 1(3) mem] by (simp add: listener_call_effect)
        then show ?thesis using True by (auto intro: filter_cong)
      next
        case False
        then have "pollingListeners ?st1 = pollingListeners st"
          by (simp add: listener_call_effect)
        then show ?thesis using False by (auto intro: filter_cong)
      qed
      then show ?thesis unfolding unf using ih by simp
    qed
  qed
qed

lemma forEach_listener_targets:
  "pollingTargets (snd (forEach_listener pods k len st)) =
     filter (\<lambda>n. \<not> (\<exists>x \<in> set (fst (forEach_listener pods k len st)).
                       resolves x pods \<and> deployment_name (listener_deployment x) = n))
       (pollingTargets st)"
proof (induction pods k len st rule: forEach_listener.induct)
  case (1 pods k len st)
  show ?case
  proof (cases "k < len")
    case False
    then show ?thesis by (subst (1 2) forEach_listener.simps) simp
  next
    case True
    show ?thesis
    proof (cases "k < length (pollingListeners st)")
      case False
      with True 1(2)[OF True False] show ?thesis
        by (subst (1 2) forEach_listener.simps) simp
    next
      case inb: True
      let ?l = "pollingListeners st ! k"
      let ?st1 = "listener_call ?l pods st"
      let ?r = "forEach_listener pods (Suc k) len ?st1"
      have ih: "pollingTargets (snd ?r) =
          filter (\<lambda>n. \<not> (\<exists>x \<in> set (fst ?r). resolves x pods
                            \<and> deployment_name (listener_deployment x) = n)) (pollingTargets ?st1)"
        using 1(1)[OF True inb refl] .
      have unf: "forEach_listener pods k len st = (?l # fst ?r, snd ?r)"
        using True inb by (subst forEach_listener.simps) (simp add: Let_def case_prod_beta)
      have "filter (\<lambda>n. \<not> (\<exists>x \<in> set (fst ?r). resolves x pods
                            \<and> deployment_name (listener_deployment x) = n)) (pollingTargets ?st1)
          = filter (\<lambda>n. \<not> (\<exists>x \<in> set (?l # fst ?r). resolves x pods
                            \<and> deployment_name (listener_deployment x) = n)) (pollingTargets st)"
        by (auto simp: listener_call_effect removeAll_filter_not_eq intro: filter_cong)
      then show ?thesis unfolding unf using ih by simp
    qed
  qed
qed

lemma forEach_listener_errors:
  "pollingHasErrors (snd (forEach_listener pods k len st)) =
     (pollingHasErrors st \<or> (\<exists>x \<in> set (fst (forEach_listener pods k len st)).
                                  resolves x pods \<and> 0 < fst (snd (count_pods x pods))))"
proof (induction pods k len st rule: forEach_listener.induct)
  case (1 pods k len st)
  show ?case
  proof (cases "k < len")
    case False
    then show ?thesis by (subst (1 2) forEach_listener.simps) simp
  next
    case True
    show ?thesis
    proof (cases "k < length (pollingListeners st)")
      case False
      with True 1(2)[OF True False] show ?thesis
        by (subst (1 2) forEach_listener.simps) simp
    next
      case inb: True
      let ?l = "pollingListeners st ! k"
      let ?st1 = "listener_call ?l pods st"
      let ?r = "forEach_listener pods (Suc k) len ?st1"
      have ih: "pollingHasErrors (snd ?r) =
          (pollingHasErrors ?st1 \<or> (\<exists>x \<in> set (fst ?r). resolves x pods
                                        \<and> 0 < fst (snd (count_pods x pods))))"
        using 1(1)[OF True inb refl] .
      have unf: "forEach_listener pods k len st = (?l # fst ?r, snd ?r)"
        using True inb by (subst forEach_listener.simps) (simp add: Let_def case_prod_beta)
      show ?thesis unfolding unf using ih by (auto simp: listener_call_effect)
    qed
  qed
qed

lemma forEach_listener_keeps:
  "pollStarted (snd (forEach_listener pods k len st)) = pollStarted st
   \<and> pollTimeout (snd (forEach_listener pods k len st)) = pollTimeout st
   \<and> closures (snd (forEach_listener pods k len st)) = closures st
   \<and> pollingStarted (snd (forEach_listener pods k len st)) = pollingStarted st"
proof (induction pods k len st rule: forEach_listener.induct)
  case (1 pods k len st)
  show ?case
  proof (cases "k < len")
    case False
    then show ?thesis by (subst (1 2 3 4) forEach_listener.simps) simp
  next
    case True
    show ?thesis
    proof (cases "k < length (pollingListeners st)")
      case False
      with True 1(2)[OF True False] show ?thesis
        by (subst (1 2 3 4) forEach_listener.simps) simp
    next
      case inb: True
      let ?l = "pollingListeners st ! k"
      let ?st1 = "listener_call ?l pods st"
      let ?r = "forEach_listener pods (Suc k) len ?st1"
      have keep1: "pollStarted ?st1 = pollStarted st \<and> pollTimeout ?st1 = pollTimeout st
                   \<and> closures ?st1 = closures st \<and> pollingStarted ?st1 = pollingStarted st"
        by (simp add: listener_call_def Let_def timeLog_def case_prod_beta)
      have unf: "forEach_listener pods k len st = (?l # fst ?r, snd ?r)"
        using True inb by (subst forEach_listener.simps) (simp add: Let_def case_prod_beta)
      show ?thesis unfolding unf using 1(1)[OF True inb refl] keep1 by simp
    qed
  qed
qed

text \<open>
  The listener ids of the registered closures differ, and each lies below the number of
  closures made; every handler keeps it so.
\<close>

lemma numbered_initial: "numbered initial_state"
  by (simp add: numbered_def initial_state_def)

lemma numbered_dispatch: "numbered st \<Longrightarrow> numbered (snd (dispatch pods st))"
  using forEach_listener_keeps[of pods 0 "length (pollingListeners st)" st]
  by (auto simp: numbered_def dispatch_def forEach_listener_listeners distinct_map_filter)

lemma numbered_pollPods: "numbered st \<Longrightarrow> numbered (snd (pollPods now1 now2 st))"
  by (simp add: numbered_def pollPods_def Let_def timeLog_def)

lemma numbered_pollPods_callback:
  "numbered st \<Longrightarrow> numbered (snd (pollPods_callback error pods st))"
  using numbered_dispatch[of st pods]
  by (auto simp: pollPods_callback_def finishUpdate_def Let_def timeLog_def numbered_def)

lemma numbered_healthCheckPods:
  "numbered st \<Longrightarrow> numbered (snd (healthCheckPods deployment buildNumber now1 now2 st))"
  by (auto simp: numbered_def healthCheckPods_def pollPods_def Let_def timeLog_def less_Suc_eq)

lemma numbered_update_callback:
  "numbered st \<Longrightarrow>
     numbered (snd (update_callback deployment buildNumber originalBuild now1 now2 st))"
proof -
  assume "numbered st"
  then have "numbered (timeLog (DeploymentUpdated (deployment_name deployment) originalBuild
                                  buildNumber) st)"
    by (simp add: numbered_def timeLog_def)
  then show ?thesis unfolding update_callback_def by (rule numbered_healthCheckPods)
qed

lemma numbered_update_onError: "numbered st \<Longrightarrow> numbered (snd (update_onError deployment st))"
  by (simp add: numbered_def update_onError_def onError_scope_def Let_def timeLog_def)

lemma numbered_main_callback:
  "numbered st \<Longrightarrow> numbered (snd (main_callback args found pods buildNumber now1 now2 st))"
proof -
  assume n: "numbered st"
  have t: "numbered (timeLog m (s\<lparr>pollingTargets := ts\<rparr>))" if "numbered s" for m s ts
    using that by (simp add: numbered_def timeLog_def)
  have t2: "numbered (timeLog m s)" if "numbered s" for m s
    using that by (simp add: numbered_def timeLog_def)
  have f: "numbered (fold (\<lambda>pod. timeLog (PodRunningBuild pod)) ps s)" if "numbered s" for ps s
    using that by (induction ps arbitrary: s) (simp_all add: t2)
  have p: "numbered (s\<lparr>pollingTargets := ts\<rparr>)" if "numbered s" for s ts
    using that by (simp add: numbered_def)
  show ?thesis
    using n by (auto simp: main_callback_def Let_def t t2 f p numbered_healthCheckPods
                     split: list.splits)
qed

text \<open>
  C1, as the poller and the listener have it. \<open>succeeded\<close> counts the pods of the snapshot
  with the name of the deployment and the expected build that are \<^verbatim>\<open>Running\<close> and ready,
  \<open>failed\<close> those whose state is none of \<^verbatim>\<open>ContainerCreating\<close>, \<^verbatim>\<open>Running\<close>, \<^verbatim>\<open>Pending\<close> and
  \<^verbatim>\<open>Terminating\<close>. In one dispatch pass a registered listener is deregistered exactly when
  the pass calls it and \<open>succeeded + failed\<close> is the \<^verbatim>\<open>desiredCount\<close> its closure holds; its
  target is then out of \<^verbatim>\<open>pollingTargets\<close> after the pass, and \<^verbatim>\<open>pollingHasErrors\<close> is set when
  \<open>failed\<close> is positive. The pass takes no other name out of \<^verbatim>\<open>pollingTargets\<close> and sets the
  flag for no other reason.
\<close>

theorem C1_dispatch_resolution:
  assumes "distinct (map listener_id (pollingListeners st))"
    and "l \<in> set (pollingListeners st)"
    and "succeeded = length (filter (\<lambda>p. pod_name p = deployment_name (listener_deployment l)
                        \<and> pod_build p = Some (listener_buildNumber l)
                        \<and> pod_state p = ''Running'' \<and> pod_ready p) pods)"
    and "failed = length (filter (\<lambda>p. pod_name p = deployment_name (listener_deployment l)
                        \<and> pod_build p = Some (listener_buildNumber l)
                        \<and> pod_state p \<notin> set [''ContainerCreating'', ''Running'', ''Pending'', ''Terminating'']) pods)"
  shows "(resolves l pods \<longleftrightarrow> succeeded + failed = desiredCount (listener_deployment l))
       \<and> (l \<notin> set (pollingListeners (snd (dispatch pods st)))
            \<longleftrightarrow> l \<in> set (fst (dispatch pods st))
                \<and> succeeded + failed = desiredCount (listener_deployment l))
       \<and> (l \<in> set (fst (dispatch pods st))
            \<and> succeeded + failed = desiredCount (listener_deployment l) \<longrightarrow>
              deployment_name (listener_deployment l) \<notin> set (pollingTargets (snd (dispatch pods st)))
              \<and> (0 < failed \<longrightarrow> pollingHasErrors (snd (dispatch pods st))))
       \<and> pollingTargets (snd (dispatch pods st))
            = filter (\<lambda>n. \<not> (\<exists>x \<in> set (fst (dispatch pods st)).
                               resolves x pods \<and> deployment_name (listener_deployment x) = n))
                (pollingTargets st)
       \<and> pollingHasErrors (snd (dispatch pods st))
            = (pollingHasErrors st
               \<or> (\<exists>x \<in> set (fst (dispatch pods st)).
                     resolves x pods \<and> 0 < fst (snd (count_pods x pods))))"
proof -
  let ?called = "fst (dispatch pods st)"
  let ?st' = "snd (dispatch pods st)"
  have r: "resolves l pods \<longleftrightarrow> succeeded + failed = desiredCount (listener_deployment l)"
    using count_pods_totals[of l pods] assms(3,4)
    by (simp add: resolves_def case_prod_beta del: set_simps)
  have f: "failed = fst (snd (count_pods l pods))"
    using count_pods_totals(2)[of l pods] assms(4) by simp
  have ls: "pollingListeners ?st'
              = filter (\<lambda>x. \<not> (x \<in> set ?called \<and> resolves x pods)) (pollingListeners st)"
    unfolding dispatch_def using assms(1) by (rule forEach_listener_listeners)
  have ts: "pollingTargets ?st'
              = filter (\<lambda>n. \<not> (\<exists>x \<in> set ?called.
                                 resolves x pods \<and> deployment_name (listener_deployment x) = n))
                  (pollingTargets st)"
    unfolding dispatch_def by (rule forEach_listener_targets)
  have es: "pollingHasErrors ?st'
              = (pollingHasErrors st
                 \<or> (\<exists>x \<in> set ?called. resolves x pods \<and> 0 < fst (snd (count_pods x pods))))"
    unfolding dispatch_def by (rule forEach_listener_errors)
  have a: "l \<notin> set (pollingListeners ?st')
            \<longleftrightarrow> l \<in> set ?called \<and> succeeded + failed = desiredCount (listener_deployment l)"
    unfolding ls using assms(2) r by auto
  have b: "l \<in> set ?called \<and> succeeded + failed = desiredCount (listener_deployment l) \<longrightarrow>
              deployment_name (listener_deployment l) \<notin> set (pollingTargets ?st')
              \<and> (0 < failed \<longrightarrow> pollingHasErrors ?st')"
  proof
    assume h: "l \<in> set ?called \<and> succeeded + failed = desiredCount (listener_deployment l)"
    then have "resolves l pods" using r by simp
    with h have "deployment_name (listener_deployment l) \<notin> set (pollingTargets ?st')"
      unfolding ts by auto
    moreover have "0 < failed \<longrightarrow> pollingHasErrors ?st'"
      unfolding es using h \<open>resolves l pods\<close> f by auto
    ultimately show "deployment_name (listener_deployment l) \<notin> set (pollingTargets ?st')
              \<and> (0 < failed \<longrightarrow> pollingHasErrors ?st')" by simp
  qed
  from r a b ts es show ?thesis by blast
qed

theorem C1_dispatch_resolution_witness:
  "distinct (map listener_id (pollingListeners app_polling))
   \<and> listener_app \<in> set (pollingListeners app_polling)
   \<and> fst (dispatch app_pods app_polling) = [listener_app]
   \<and> 2 + 1 = desiredCount (listener_deployment listener_app)
   \<and> listener_app \<notin> set (pollingListeners (snd (dispatch app_pods app_polling)))
   \<and> ''app'' \<notin> set (pollingTargets (snd (dispatch app_pods app_polling)))
   \<and> pollingHasErrors (snd (dispatch app_pods app_polling))
   \<and> fst (dispatch (take 2 app_pods) app_polling) = [listener_app]
   \<and> 2 + 0 \<noteq> desiredCount (listener_deployment listener_app)
   \<and> listener_app \<in> set (pollingListeners (snd (dispatch (take 2 app_pods) app_polling)))"
proof -
  have d: "distinct (map listener_id (pollingListeners app_polling))"
    by (simp add: app_polling_def)
  have m: "listener_app \<in> set (pollingListeners app_polling)"
    by (simp add: app_polling_def)
  have s3: "(2::nat) = length (filter (\<lambda>p. pod_name p = deployment_name (listener_deployment listener_app)
                        \<and> pod_build p = Some (listener_buildNumber listener_app)
                        \<and> pod_state p = ''Running'' \<and> pod_ready p) app_pods)"
    by (simp add: app_pods_def listener_app_def)
  have f3: "(1::nat) = length (filter (\<lambda>p. pod_name p = deployment_name (listener_deployment listener_app)
                        \<and> pod_build p = Some (listener_buildNumber listener_app)
                        \<and> pod_state p \<notin> set [''ContainerCreating'', ''Running'', ''Pending'', ''Terminating'']) app_pods)"
    by (simp add: app_pods_def listener_app_def)
  have s2: "(2::nat) = length (filter (\<lambda>p. pod_name p = deployment_name (listener_deployment listener_app)
                        \<and> pod_build p = Some (listener_buildNumber listener_app)
                        \<and> pod_state p = ''Running'' \<and> pod_ready p) (take 2 app_pods))"
    by (simp add: app_pods_def listener_app_def)
  have f2: "(0::nat) = length (filter (\<lambda>p. pod_name p = deployment_name (listener_deployment listener_app)
                        \<and> pod_build p = Some (listener_buildNumber listener_app)
                        \<and> pod_state p \<notin> set [''ContainerCreating'', ''Running'', ''Pending'', ''Terminating'']) (take 2 app_pods))"
    by (simp add: app_pods_def listener_app_def)
  have c3: "fst (dispatch app_pods app_polling) = [listener_app]"
    by (simp add: dispatch_def forEach_listener.simps app_polling_def app_pods_def listener_app_def
          listener_call_def count_pods_def check_pod_def timeLog_def)
  have c2: "fst (dispatch (take 2 app_pods) app_polling) = [listener_app]"
    by (simp add: dispatch_def forEach_listener.simps app_polling_def app_pods_def listener_app_def
          listener_call_def count_pods_def check_pod_def timeLog_def)
  have w: "desiredCount (listener_deployment listener_app) = 3" by (simp add: listener_app_def)
  have n: "deployment_name (listener_deployment listener_app) = ''app''" by (simp add: listener_app_def)
  show ?thesis
    using C1_dispatch_resolution[OF d m s3 f3] C1_dispatch_resolution[OF d m s2 f2] d m c3 c2 w n
    by simp
qed

text \<open>
  The claim as written fails: with one pod wanted and the one pod of the expected build in
  state \<^verbatim>\<open>ImagePullBackOff\<close>, no pod is \<^verbatim>\<open>Running\<close> and ready and none is in \<^verbatim>\<open>Error\<close> or
  \<^verbatim>\<open>CrashLoopBackOff\<close>, so the two counts of the claim add up to 0 and not to 1; yet the pass
  deregisters the listener, takes the target out and sets the flag.
\<close>

theorem C1_counterexample:
  "listener_a \<in> set (pollingListeners a_polling_b_updating)
   \<and> length (filter (\<lambda>p. pod_name p = deployment_name (listener_deployment listener_a)
                        \<and> pod_build p = Some (listener_buildNumber listener_a)
                        \<and> pod_state p = ''Running'' \<and> pod_ready p) [pull_failure])
     + length (filter (\<lambda>p. pod_name p = deployment_name (listener_deployment listener_a)
                        \<and> pod_build p = Some (listener_buildNumber listener_a)
                        \<and> pod_state p \<in> {''Error'', ''CrashLoopBackOff''}) [pull_failure])
     \<noteq> desiredCount (listener_deployment listener_a)
   \<and> fst (dispatch [pull_failure] a_polling_b_updating) = [listener_a]
   \<and> listener_a \<notin> set (pollingListeners (snd (dispatch [pull_failure] a_polling_b_updating)))
   \<and> ''a'' \<notin> set (pollingTargets (snd (dispatch [pull_failure] a_polling_b_updating)))
   \<and> pollingHasErrors (snd (dispatch [pull_failure] a_polling_b_updating))"
  by (simp add: dispatch_def forEach_listener.simps a_polling_b_updating_def pull_failure_def
        listener_a_def listener_call_def count_pods_def check_pod_def timeLog_def)

section \<open>Convergence poller: the deadline\<close>

lemma pollPods_clock:
  "pollStarted (snd (pollPods now1 now2 st)) = Some (start_of_poll now1 st)
   \<and> pollTimeout (snd (pollPods now1 now2 st)) = pollTimeout st"
  by (simp add: pollPods_def Let_def timeLog_def)

lemma pollPods_callback_clock:
  "pollStarted (snd (pollPods_callback error pods st)) = pollStarted st
   \<and> pollTimeout (snd (pollPods_callback error pods st)) = pollTimeout st"
  using forEach_listener_keeps[of pods 0 "length (pollingListeners st)" st]
  by (simp add: pollPods_callback_def dispatch_def finishUpdate_def Let_def timeLog_def)

lemma healthCheckPods_clock:
  "pollStarted st = Some t \<Longrightarrow> t \<noteq> 0 \<Longrightarrow>
     pollStarted (snd (healthCheckPods deployment buildNumber now1 now2 st)) = Some t
     \<and> pollTimeout (snd (healthCheckPods deployment buildNumber now1 now2 st)) = pollTimeout st"
  by (simp add: healthCheckPods_def pollPods_def start_of_poll_def Let_def timeLog_def)

lemma update_onError_clock:
  "pollStarted (snd (update_onError deployment st)) = pollStarted st
   \<and> pollTimeout (snd (update_onError deployment st)) = pollTimeout st"
  by (simp add: update_onError_def onError_scope_def Let_def timeLog_def)

lemma update_callback_clock:
  "pollStarted st = Some t \<Longrightarrow> t \<noteq> 0 \<Longrightarrow>
     pollStarted (snd (update_callback deployment buildNumber originalBuild now1 now2 st)) = Some t
     \<and> pollTimeout (snd (update_callback deployment buildNumber originalBuild now1 now2 st))
         = pollTimeout st"
  using healthCheckPods_clock[of "timeLog (DeploymentUpdated (deployment_name deployment)
                                    originalBuild buildNumber) st" t deployment buildNumber now1 now2]
  by (simp add: update_callback_def timeLog_def)

lemma main_callback_clock:
  assumes "pollStarted st = Some t" and "t \<noteq> 0"
  shows "pollStarted (snd (main_callback args found pods buildNumber now1 now2 st)) = Some t
     \<and> pollTimeout (snd (main_callback args found pods buildNumber now1 now2 st)) = pollTimeout st"
proof -
  have f: "pollStarted (fold (\<lambda>pod. timeLog (PodRunningBuild pod)) ps s) = pollStarted s
           \<and> pollTimeout (fold (\<lambda>pod. timeLog (PodRunningBuild pod)) ps s) = pollTimeout s" for ps s
    by (induction ps arbitrary: s) (simp_all add: timeLog_def)
  have h: "pollStarted (snd (healthCheckPods found b now1 now2 s)) = Some t
           \<and> pollTimeout (snd (healthCheckPods found b now1 now2 s)) = pollTimeout st"
    if "pollStarted s = Some t" and "pollTimeout s = pollTimeout st" for b s
    using healthCheckPods_clock[OF that(1) assms(2), of found b now1 now2] that(2) by simp
  show ?thesis
    using assms f by (auto simp: main_callback_def Let_def timeLog_def h split: list.splits)
qed

text \<open>
  C3. The timeout is 600 seconds unless configured, and no start is recorded before the
  first tick. A tick at which the whole seconds since the start of the loop exceed the
  timeout prints the names still in \<^verbatim>\<open>pollingTargets\<close> and leaves the process with status 1,
  sending no query; at any other tick \<^verbatim>\<open>pollPods\<close> sends the query for the active targets.
  The start of the loop is the clock of the first tick: that tick records it in
  \<^verbatim>\<open>pollStarted\<close>, and every later tick, the callback on a snapshot and every other handler
  keep what is recorded, as they keep the timeout. So a tick that follows the first one and
  its callback leaves the process exactly when its clock is more than the timeout past the
  clock of the first tick.
\<close>

theorem C3_deadline:
  "pollTimeout initial_state = Num 600
   \<and> pollStarted initial_state = None
   \<and> (js_gt (now2 div 1000 - start_of_poll now1 st) (pollTimeout st) \<longrightarrow>
        fst (pollPods now1 now2 st) = Exited 1
        \<and> printed (snd (pollPods now1 now2 st))
            = printed st @ [TimeoutReached (join '', '' (pollingTargets st))])
   \<and> (\<not> js_gt (now2 div 1000 - start_of_poll now1 st) (pollTimeout st) \<longrightarrow>
        fst (pollPods now1 now2 st) = Fetching (pollingTargets st))
   \<and> pollStarted (snd (pollPods now1 now2 st)) = Some (start_of_poll now1 st)
   \<and> pollTimeout (snd (pollPods now1 now2 st)) = pollTimeout st
   \<and> (pollStarted st = None \<longrightarrow> start_of_poll now1 st = now1 div 1000)
   \<and> (pollStarted st = Some t \<and> t \<noteq> 0 \<longrightarrow>
        start_of_poll now1 st = t
        \<and> pollStarted (snd (pollPods now1 now2 st)) = Some t
        \<and> pollStarted (snd (pollPods_callback error pods st)) = Some t
        \<and> pollStarted (snd (healthCheckPods deployment buildNumber now1 now2 st)) = Some t
        \<and> pollStarted (snd (update_callback deployment buildNumber originalBuild now1 now2 st)) = Some t
        \<and> pollStarted (snd (update_onError deployment st)) = Some t
        \<and> pollStarted (snd (main_callback args deployment pods current now1 now2 st)) = Some t
        \<and> pollTimeout (snd (pollPods_callback error pods st)) = pollTimeout st
        \<and> pollTimeout (snd (healthCheckPods deployment buildNumber now1 now2 st)) = pollTimeout st
        \<and> pollTimeout (snd (update_callback deployment buildNumber originalBuild now1 now2 st))
            = pollTimeout st
        \<and> pollTimeout (snd (update_onError deployment st)) = pollTimeout st
        \<and> pollTimeout (snd (main_callback args deployment pods current now1 now2 st))
            = pollTimeout st)
   \<and> (pollStarted st = None \<and> now1 div 1000 \<noteq> 0 \<longrightarrow>
        (js_gt (now4 div 1000 - now1 div 1000) (pollTimeout st) \<longrightarrow>
           fst (pollPods now3 now4
                  (snd (pollPods_callback error pods (snd (pollPods now1 now2 st))))) = Exited 1
           \<and> printed (snd (pollPods now3 now4
                  (snd (pollPods_callback error pods (snd (pollPods now1 now2 st))))))
               = printed (snd (pollPods_callback error pods (snd (pollPods now1 now2 st))))
                 @ [TimeoutReached (join '', '' (pollingTargets
                      (snd (pollPods_callback error pods (snd (pollPods now1 now2 st))))))])
        \<and> (\<not> js_gt (now4 div 1000 - now1 div 1000) (pollTimeout st) \<longrightarrow>
           fst (pollPods now3 now4
                  (snd (pollPods_callback error pods (snd (pollPods now1 now2 st)))))
             = Fetching (pollingTargets
                  (snd (pollPods_callback error pods (snd (pollPods now1 now2 st)))))))"
proof -
  let ?s1 = "snd (pollPods now1 now2 st)"
  let ?s2 = "snd (pollPods_callback error pods ?s1)"
  have init: "pollTimeout initial_state = Num 600 \<and> pollStarted initial_state = None"
    by (simp add: initial_state_def)
  have tick: "(js_gt (now2 div 1000 - start_of_poll now1 st) (pollTimeout st) \<longrightarrow>
        fst (pollPods now1 now2 st) = Exited 1
        \<and> printed (snd (pollPods now1 now2 st))
            = printed st @ [TimeoutReached (join '', '' (pollingTargets st))])
   \<and> (\<not> js_gt (now2 div 1000 - start_of_poll now1 st) (pollTimeout st) \<longrightarrow>
        fst (pollPods now1 now2 st) = Fetching (pollingTargets st))"
    by (simp add: pollPods_def Let_def timeLog_def)
  have first: "pollStarted st = None \<longrightarrow> start_of_poll now1 st = now1 div 1000"
    by (simp add: start_of_poll_def)
  have kept: "pollStarted st = Some t \<and> t \<noteq> 0 \<longrightarrow>
        start_of_poll now1 st = t
        \<and> pollStarted (snd (pollPods now1 now2 st)) = Some t
        \<and> pollStarted (snd (pollPods_callback error pods st)) = Some t
        \<and> pollStarted (snd (healthCheckPods deployment buildNumber now1 now2 st)) = Some t
        \<and> pollStarted (snd (update_callback deployment buildNumber originalBuild now1 now2 st)) = Some t
        \<and> pollStarted (snd (update_onError deployment st)) = Some t
        \<and> pollStarted (snd (main_callback args deployment pods current now1 now2 st)) = Some t
        \<and> pollTimeout (snd (pollPods_callback error pods st)) = pollTimeout st
        \<and> pollTimeout (snd (healthCheckPods deployment buildNumber now1 now2 st)) = pollTimeout st
        \<and> pollTimeout (snd (update_callback deployment buildNumber originalBuild now1 now2 st))
            = pollTimeout st
        \<and> pollTimeout (snd (update_onError deployment st)) = pollTimeout st
        \<and> pollTimeout (snd (main_callback args deployment pods current now1 now2 st))
            = pollTimeout st"
  proof
    assume h: "pollStarted st = Some t \<and> t \<noteq> 0"
    then have a: "pollStarted st = Some t" and b: "t \<noteq> 0" by simp_all
    have s: "start_of_poll now1 st = t" using a b by (simp add: start_of_poll_def)
    show "start_of_poll now1 st = t
        \<and> pollStarted (snd (pollPods now1 now2 st)) = Some t
        \<and> pollStarted (snd (pollPods_callback error pods st)) = Some t
        \<and> pollStarted (snd (healthCheckPods deployment buildNumber now1 now2 st)) = Some t
        \<and> pollStarted (snd (update_callback deployment buildNumber originalBuild now1 now2 st)) = Some t
        \<and> pollStarted (snd (update_onError deployment st)) = Some t
        \<and> pollStarted (snd (main_callback args deployment pods current now1 now2 st)) = Some t
        \<and> pollTimeout (snd (pollPods_callback error pods st)) = pollTimeout st
        \<and> pollTimeout (snd (healthCheckPods deployment buildNumber now1 now2 st)) = pollTimeout st
        \<and> pollTimeout (snd (update_callback deployment buildNumber originalBuild now1 now2 st))
            = pollTimeout st
        \<and> pollTimeout (snd (update_onError deployment st)) = pollTimeout st
        \<and> pollTimeout (snd (main_callback args deployment pods current now1 now2 st))
            = pollTimeout st"
      using s a pollPods_clock[of now1 now2 st] pollPods_callback_clock[of error pods st]
        healthCheckPods_clock[OF a b, of deployment buildNumber now1 now2]
        update_callback_clock[OF a b, of deployment buildNumber originalBuild now1 now2]
        update_onError_clock[of deployment st]
        main_callback_clock[OF a b, of args deployment pods current now1 now2]
      by simp
  qed
  have later: "pollStarted st = None \<and> now1 div 1000 \<noteq> 0 \<longrightarrow>
        (js_gt (now4 div 1000 - now1 div 1000) (pollTimeout st) \<longrightarrow>
           fst (pollPods now3 now4 ?s2) = Exited 1
           \<and> printed (snd (pollPods now3 now4 ?s2))
               = printed ?s2 @ [TimeoutReached (join '', '' (pollingTargets ?s2))])
        \<and> (\<not> js_gt (now4 div 1000 - now1 div 1000) (pollTimeout st) \<longrightarrow>
           fst (pollPods now3 now4 ?s2) = Fetching (pollingTargets ?s2))"
  proof
    assume h: "pollStarted st = None \<and> now1 div 1000 \<noteq> 0"
    then have "pollStarted ?s1 = Some (now1 div 1000)"
      using pollPods_clock[of now1 now2 st] by (simp add: start_of_poll_def)
    then have st2: "pollStarted ?s2 = Some (now1 div 1000)"
      using pollPods_callback_clock[of error pods ?s1] by simp
    have to2: "pollTimeout ?s2 = pollTimeout st"
      using pollPods_callback_clock[of error pods ?s1] pollPods_clock[of now1 now2 st] by simp
    have s: "start_of_poll now3 ?s2 = now1 div 1000"
      using st2 h by (simp add: start_of_poll_def)
    show "(js_gt (now4 div 1000 - now1 div 1000) (pollTimeout st) \<longrightarrow>
           fst (pollPods now3 now4 ?s2) = Exited 1
           \<and> printed (snd (pollPods now3 now4 ?s2))
               = printed ?s2 @ [TimeoutReached (join '', '' (pollingTargets ?s2))])
        \<and> (\<not> js_gt (now4 div 1000 - now1 div 1000) (pollTimeout st) \<longrightarrow>
           fst (pollPods now3 now4 ?s2) = Fetching (pollingTargets ?s2))"
      using s to2 by (simp add: pollPods_def Let_def timeLog_def)
  qed
  from init tick pollPods_clock[of now1 now2 st] first kept later show ?thesis by blast
qed

theorem C3_deadline_witness:
  "js_gt (1700000601500 div 1000 - start_of_poll 1700000601000 both_polling) (pollTimeout both_polling)
   \<and> pollPods 1700000601000 1700000601500 both_polling
       = (Exited 1, both_polling\<lparr>printed := [TimeoutReached ''a, b'']\<rparr>)
   \<and> \<not> js_gt (1700000600999 div 1000 - start_of_poll 1700000600000 both_polling) (pollTimeout both_polling)
   \<and> fst (pollPods 1700000600000 1700000600999 both_polling) = Fetching [''a'', ''b'']
   \<and> pollStarted a_registered = None
   \<and> (1700000000000::int) div 1000 \<noteq> 0
   \<and> pollStarted (snd (pollPods 1700000000000 1700000000001 a_registered)) = Some 1700000000
   \<and> js_gt (1700000601000 div 1000 - 1700000000000 div 1000) (pollTimeout a_registered)
   \<and> fst (pollPods 1700000601000 1700000601000
            (snd (pollPods_callback False [] (snd (pollPods 1700000000000 1700000000001 a_registered)))))
       = Exited 1
   \<and> \<not> js_gt (1700000600000 div 1000 - 1700000000000 div 1000) (pollTimeout a_registered)
   \<and> fst (pollPods 1700000600000 1700000600000
            (snd (pollPods_callback False [] (snd (pollPods 1700000000000 1700000000001 a_registered)))))
       = Fetching [''a'']
   \<and> pollStarted both_polling = Some 1700000000
   \<and> pollStarted (snd (pollPods_callback False both_up both_polling)) = Some 1700000000"
proof -
  have a: "js_gt (1700000601500 div 1000 - start_of_poll 1700000601000 both_polling) (pollTimeout both_polling)"
    by (simp add: start_of_poll_def both_polling_def)
  have b: "\<not> js_gt (1700000600999 div 1000 - start_of_poll 1700000600000 both_polling) (pollTimeout both_polling)"
    by (simp add: start_of_poll_def both_polling_def)
  have c: "snd (pollPods 1700000601000 1700000601500 both_polling) = both_polling\<lparr>printed := [TimeoutReached ''a, b'']\<rparr>"
    by (simp add: pollPods_def start_of_poll_def both_polling_def timeLog_def)
  have d: "pollStarted a_registered = None" "pollTimeout a_registered = Num 600"
    by (simp_all add: a_registered_def)
  have e: "(1700000000000::int) div 1000 \<noteq> 0" by simp
  have f: "pollStarted both_polling = Some 1700000000" "(1700000000::int) \<noteq> 0"
    by (simp_all add: both_polling_def)
  have g: "pollingTargets (snd (pollPods_callback False []
              (snd (pollPods 1700000000000 1700000000001 a_registered)))) = [''a'']"
    by (simp add: pollPods_callback_def dispatch_def forEach_listener.simps pollPods_def
          start_of_poll_def a_registered_def listener_a_def listener_call_def count_pods_def
          timeLog_def Let_def)
  have t1: "js_gt (1700000601000 div 1000 - 1700000000000 div 1000) (pollTimeout a_registered)"
    by (simp add: d)
  have t2: "\<not> js_gt (1700000600000 div 1000 - 1700000000000 div 1000) (pollTimeout a_registered)"
    by (simp add: d)
  note w1 = C3_deadline[where ?now1.0 = 1700000601000 and ?now2.0 = 1700000601500
                          and st = both_polling and t = 1700000000 and error = False
                          and pods = both_up]
  note w2 = C3_deadline[where ?now1.0 = 1700000600000 and ?now2.0 = 1700000600999
                          and st = both_polling]
  note w3 = C3_deadline[where ?now1.0 = 1700000000000 and ?now2.0 = 1700000000001
                          and st = a_registered and error = False and pods = "[]"
                          and ?now3.0 = 1700000601000 and ?now4.0 = 1700000601000]
  note w4 = C3_deadline[where ?now1.0 = 1700000000000 and ?now2.0 = 1700000000001
                          and st = a_registered and error = False and pods = "[]"
                          and ?now3.0 = 1700000600000 and ?now4.0 = 1700000600000]
  have r1: "fst (pollPods 1700000601000 1700000601500 both_polling) = Exited 1"
    using w1 a by blast
  have r2: "fst (pollPods 1700000600000 1700000600999 both_polling) = Fetching (pollingTargets both_polling)"
    using w2 b by blast
  have r3: "pollStarted (snd (pollPods 1700000000000 1700000000001 a_registered))
              = Some (start_of_poll 1700000000000 a_registered)"
    using w3 by blast
  have r4: "fst (pollPods 1700000601000 1700000601000
            (snd (pollPods_callback False [] (snd (pollPods 1700000000000 1700000000001 a_registered)))))
       = Exited 1"
    using w3 d(1) e t1 by blast
  have r5: "fst (pollPods 1700000600000 1700000600000
            (snd (pollPods_callback False [] (snd (pollPods 1700000000000 1700000000001 a_registered)))))
       = Fetching (pollingTargets (snd (pollPods_callback False []
              (snd (pollPods 1700000000000 1700000000001 a_registered)))))"
    using w4 d(1) e t2 by blast
  have r6: "pollStarted (snd (pollPods_callback False both_up both_polling)) = Some 1700000000"
    using w1 f by blast
  have s: "start_of_poll 1700000000000 a_registered = 1700000000"
    by (simp add: start_of_poll_def d)
  have tb: "pollingTargets both_polling = [''a'', ''b'']" by (simp add: both_polling_def)
  show ?thesis
    using a b c d(1) e f(1) t1 t2 r1 r2 r3 r4 r5 r6 g s tb
    by (simp add: prod_eq_iff)
qed

section \<open>Update driver: the error handler\<close>

text \<open>
  C8 at the handler: it takes the deployment out of \<^verbatim>\<open>pollingTargets\<close> and sets
  \<^verbatim>\<open>pollingHasErrors\<close>, then reads \<^verbatim>\<open>error\<close>, which no scope binds, and ends in an exception
  that nothing catches, whatever targets are left.
\<close>

theorem C8_onError_throws:
  "fst (update_onError deployment st) = Uncaught ''ReferenceError: error is not defined''
   \<and> pollingTargets (snd (update_onError deployment st))
       = removeAll (deployment_name deployment) (pollingTargets st)
   \<and> pollingHasErrors (snd (update_onError deployment st))"
  by (simp add: update_onError_def onError_scope_def timeLog_def Let_def)

theorem C8_onError_throws_witness:
  "update_onError \<lparr>deployment_name = ''b'', desiredCount = 1\<rparr> a_polling_b_updating
     = (Uncaught ''ReferenceError: error is not defined'',
        a_polling_b_updating\<lparr>pollingTargets := [''a''], pollingHasErrors := True,
                              printed := [FatalUpdating ''b'']\<rparr>)"
proof -
  have "snd (update_onError \<lparr>deployment_name = ''b'', desiredCount = 1\<rparr> a_polling_b_updating)
          = a_polling_b_updating\<lparr>pollingTargets := [''a''], pollingHasErrors := True,
                                  printed := [FatalUpdating ''b'']\<rparr>"
    by (simp add: update_onError_def onError_scope_def timeLog_def a_polling_b_updating_def)
  then show ?thesis
    using C8_onError_throws[of "\<lparr>deployment_name = ''b'', desiredCount = 1\<rparr>" a_polling_b_updating]
    by (simp add: prod_eq_iff)
qed

section \<open>Inventory parser: the derived name\<close>

lemma first_some_greedy:
  "m \<le> K \<Longrightarrow> g m \<noteq> None \<Longrightarrow> (\<forall>n. m < n \<and> n \<le> K \<longrightarrow> g n = None) \<Longrightarrow>
   first_some (map g (rev [0 ..< Suc K])) = g m"
proof (induction K)
  case 0
  then show ?case by (cases "g 0") auto
next
  case (Suc K)
  show ?case
  proof (cases "m = Suc K")
    case True
    with Suc.prems(2) show ?thesis by (cases "g (Suc K)") auto
  next
    case False
    with Suc.prems have le: "m \<le> K" and none: "g (Suc K) = None" by auto
    have "first_some (map g (rev [0 ..< Suc K])) = g m"
      using le Suc.prems by (intro Suc.IH) auto
    with none show ?thesis by simp
  qed
qed

lemma rmatch_dash: "rmatch [Lit ''-''] w = (if take 1 w = ''-'' then Some ([], drop 1 w) else None)"
  by (simp add: rmatch.simps)

lemma digit_head_no_dash: "n < length (takeWhile is_digit v) \<Longrightarrow> take 1 (drop n v) \<noteq> ''-''"
proof -
  assume n: "n < length (takeWhile is_digit v)"
  then have "takeWhile is_digit v ! n \<in> set (takeWhile is_digit v)" by simp
  then have d: "is_digit (v ! n)" using n by (metis set_takeWhileD takeWhile_nth)
  have "n < length v" using n length_takeWhile_le[of is_digit v] by simp
  then have "take 1 (drop n v) = [v ! n]" by (simp add: Cons_nth_drop_Suc[symmetric])
  with d show ?thesis by (auto simp: is_digit_def)
qed

lemma rmatch_digits_dash:
  "rmatch [Rep Digit 0, Lit ''-''] v =
     (if take 1 (dropWhile is_digit v) = ''-'' then Some ([], drop 1 (dropWhile is_digit v)) else None)"
proof -
  let ?K = "length (takeWhile is_digit v)"
  let ?g = "\<lambda>n. rmatch [Lit ''-''] (drop n v)"
  have unfold: "rmatch [Rep Digit 0, Lit ''-''] v = first_some (map ?g (rev [0 ..< Suc ?K]))"
    by (simp add: rmatch.simps(3) in_class_Digit)
  have below: "\<forall>n. n < ?K \<longrightarrow> ?g n = None"
    using digit_head_no_dash[of _ v] by (simp add: rmatch_dash)
  have top: "?g ?K = (if take 1 (dropWhile is_digit v) = ''-''
                      then Some ([], drop 1 (dropWhile is_digit v)) else None)"
    by (simp add: rmatch_dash dropWhile_eq_drop[symmetric])
  show ?thesis
  proof (cases "take 1 (dropWhile is_digit v) = ''-''")
    case True
    then have "?g ?K \<noteq> None" using top by simp
    then have "first_some (map ?g (rev [0 ..< Suc ?K])) = ?g ?K"
      by (intro first_some_greedy) auto
    then show ?thesis using unfold top by simp
  next
    case False
    then have "\<forall>n. n \<le> ?K \<longrightarrow> ?g n = None"
      using below top by (auto simp: le_less)
    then have "first_some (map ?g (rev [0 ..< Suc ?K])) = None"
      by (auto simp: first_some_None less_Suc_eq_le)
    then show ?thesis using unfold False by simp
  qed
qed

lemma rmatch_segment:
  "rmatch [Lit ''-'', Rep Digit 0, Lit ''-''] u =
     (if segment_at u then Some ([], drop 1 (dropWhile is_digit (drop 1 u))) else None)"
  using rmatch_digits_dash[of "drop 1 u"] by (simp add: rmatch.simps(2) segment_at_def)

lemma has_numeric_segment_iff: "has_numeric_segment s \<longleftrightarrow> (\<exists>n. segment_at (drop n s))"
proof (induction s)
  case Nil
  then show ?case by (simp add: segment_at_def)
next
  case (Cons c cs)
  have "(\<exists>n. segment_at (drop n (c # cs))) \<longleftrightarrow> segment_at (c # cs) \<or> (\<exists>n. segment_at (drop n cs))"
  proof
    assume "\<exists>n. segment_at (drop n (c # cs))"
    then obtain n where n: "segment_at (drop n (c # cs))" by blast
    show "segment_at (c # cs) \<or> (\<exists>n. segment_at (drop n cs))"
    proof (cases n)
      case 0
      with n show ?thesis by simp
    next
      case (Suc k)
      with n show ?thesis by auto
    qed
  next
    assume "segment_at (c # cs) \<or> (\<exists>n. segment_at (drop n cs))"
    then show "\<exists>n. segment_at (drop n (c # cs))"
    proof
      assume "segment_at (c # cs)"
      then have "segment_at (drop 0 (c # cs))" by simp
      then show ?thesis by blast
    next
      assume "\<exists>n. segment_at (drop n cs)"
      then obtain n where "segment_at (drop (Suc n) (c # cs))" by auto
      then show ?thesis by blast
    qed
  qed
  moreover have "segment_at (c # cs) \<longleftrightarrow> c = CHR ''-'' \<and> take 1 (dropWhile is_digit cs) = ''-''"
    by (simp add: segment_at_def)
  ultimately show ?case using Cons by simp
qed

lemma derive_name_no_segment:
  assumes "\<not> has_numeric_segment s"
  shows "derive_name s = s"
proof -
  have "\<forall>n. rmatch [Lit ''-'', Rep Digit 0, Lit ''-''] (drop n s) = None"
    using assms by (simp add: has_numeric_segment_iff rmatch_segment)
  then have "rmatch name_re s = None"
    by (simp add: name_re_def rmatch.simps(5) first_some_None)
  then show ?thesis by (simp add: derive_name_def)
qed

lemma derive_name_strips:
  assumes p: "\<forall>c \<in> set p. \<not> line_terminator c"
    and ds: "\<forall>c \<in> set ds. is_digit c"
    and r: "\<not> has_numeric_segment (''-'' @ r)"
  shows "derive_name (p @ ''-'' @ ds @ ''-'' @ r) = p"
proof -
  let ?s = "p @ ''-'' @ ds @ ''-'' @ r"
  let ?rest = "[Lit ''-'', Rep Digit 0, Lit ''-'']"
  let ?K = "length (takeWhile (in_class AnyChar) ?s)"
  let ?g = "\<lambda>n. map_option (\<lambda>(caps, rest). (take n ?s # caps, rest)) (rmatch ?rest (drop n ?s))"
  have nd: "\<not> is_digit CHR ''-''" by (simp add: is_digit_def)
  have dw: "dropWhile is_digit (ds @ ''-'' @ r) = ''-'' @ r"
    using ds nd by (simp add: dropWhile_append2)
  have tw: "takeWhile (in_class AnyChar) ?s = p @ takeWhile (in_class AnyChar) (''-'' @ ds @ ''-'' @ r)"
    using p by (simp add: takeWhile_append2)
  have K: "length p < ?K"
    unfolding tw by (simp add: line_terminator_def)
  have here: "segment_at (drop (length p) ?s)"
    using dw by (simp add: segment_at_def)
  have gm: "?g (length p) = Some ([p], r)"
    using here dw by (simp add: rmatch_segment)
  have later: "\<forall>n. length p < n \<and> n \<le> ?K \<longrightarrow> ?g n = None"
  proof (intro allI impI)
    fix n assume n: "length p < n \<and> n \<le> ?K"
    define j where "j = n - Suc (length p)"
    have nj: "n = length p + Suc j" using n by (simp add: j_def)
    have dn: "drop n ?s = drop j (ds @ ''-'' @ r)"
      unfolding nj by simp
    have "\<not> segment_at (drop j (ds @ ''-'' @ r))"
    proof (cases "j < length ds")
      case True
      then have "j < length (takeWhile is_digit (ds @ ''-'' @ r))"
        using ds by (simp add: takeWhile_append2)
      then have "take 1 (drop j (ds @ ''-'' @ r)) \<noteq> ''-''" by (rule digit_head_no_dash)
      then show ?thesis by (simp add: segment_at_def)
    next
      case False
      then have "drop j (ds @ ''-'' @ r) = drop (j - length ds) (''-'' @ r)" by simp
      then show ?thesis using r by (simp add: has_numeric_segment_iff del: has_numeric_segment.simps)
    qed
    then have "\<not> segment_at (drop n ?s)" unfolding dn .
    then show "?g n = None" by (simp add: rmatch_segment del: drop_append)
  qed
  have "first_some (map ?g (rev [0 ..< Suc ?K])) = ?g (length p)"
    using K gm later by (intro first_some_greedy) auto
  then have "rmatch name_re ?s = Some ([p], r)"
    using gm by (simp add: name_re_def rmatch.simps(5))
  then show ?thesis by (simp add: derive_name_def)
qed

lemma map_filter_pod_of_match:
  "p \<in> set (List.map_filter pod_of_match ms) \<Longrightarrow>
     pod_name p = derive_name (pod_id p) \<and> pod_build p = None"
proof -
  assume "p \<in> set (List.map_filter pod_of_match ms)"
  then obtain m where "pod_of_match m = Some p" by (auto simp: map_filter_def)
  then show ?thesis by (cases m rule: pod_of_match.cases) auto
qed

lemma parsePods_names:
  "parsePods out = Some pods \<Longrightarrow> p \<in> set pods \<Longrightarrow>
     pod_name p = derive_name (pod_id p) \<and> pod_build p = None"
  using map_filter_pod_of_match by (auto simp: parsePods_def)

section \<open>The loops over the matches end\<close>

declare exec_all.simps [simp del]

lemma first_some_map_Some: "first_some (map g xs) = Some y \<Longrightarrow> \<exists>n \<in> set xs. g n = Some y"
proof (induction xs)
  case Nil
  then show ?case by simp
next
  case (Cons a xs)
  then show ?case by (cases "g a") auto
qed

lemma in_upt_Suc: "n \<in> set [lo ..< Suc K] \<longleftrightarrow> lo \<le> n \<and> n \<le> K"
  by (simp del: upt_Suc add: less_Suc_eq_le)

lemma rmatch_Rep_Some:
  assumes "rmatch (Rep c lo # r) s = Some y"
  shows "\<exists>n. lo \<le> n \<and> n \<le> length (takeWhile (in_class c) s) \<and> rmatch r (drop n s) = Some y"
proof -
  let ?K = "length (takeWhile (in_class c) s)"
  have "first_some (map (\<lambda>n. rmatch r (drop n s)) (rev [lo ..< Suc ?K])) = Some y"
    using assms by (simp only: rmatch.simps(3))
  then obtain n where "n \<in> set (rev [lo ..< Suc ?K])" and m: "rmatch r (drop n s) = Some y"
    using first_some_map_Some[of "\<lambda>n. rmatch r (drop n s)"] by blast
  then have "lo \<le> n \<and> n \<le> ?K" by (simp only: set_rev in_upt_Suc)
  with m show ?thesis by blast
qed

lemma rmatch_LazyRep_Some:
  assumes "rmatch (LazyRep c lo # r) s = Some y"
  shows "\<exists>n. lo \<le> n \<and> n \<le> length (takeWhile (in_class c) s) \<and> rmatch r (drop n s) = Some y"
proof -
  let ?K = "length (takeWhile (in_class c) s)"
  have "first_some (map (\<lambda>n. rmatch r (drop n s)) [lo ..< Suc ?K]) = Some y"
    using assms by (simp only: rmatch.simps(4))
  then obtain n where "n \<in> set [lo ..< Suc ?K]" and m: "rmatch r (drop n s) = Some y"
    using first_some_map_Some[of "\<lambda>n. rmatch r (drop n s)"] by blast
  then have "lo \<le> n \<and> n \<le> ?K" by (simp only: in_upt_Suc)
  with m show ?thesis by blast
qed

lemma rmatch_Cap_Some:
  assumes "rmatch (Cap c lo # r) s = Some (caps, rest)"
  shows "\<exists>n caps'. lo \<le> n \<and> n \<le> length (takeWhile (in_class c) s)
           \<and> rmatch r (drop n s) = Some (caps', rest) \<and> caps = take n s # caps'"
proof -
  let ?K = "length (takeWhile (in_class c) s)"
  let ?g = "\<lambda>n. map_option (\<lambda>(caps, rest). (take n s # caps, rest)) (rmatch r (drop n s))"
  have "first_some (map ?g (rev [lo ..< Suc ?K])) = Some (caps, rest)"
    using assms by (simp only: rmatch.simps(5))
  then obtain n where "n \<in> set (rev [lo ..< Suc ?K])" and m: "?g n = Some (caps, rest)"
    using first_some_map_Some[of ?g] by blast
  then have n: "lo \<le> n \<and> n \<le> ?K" by (simp only: set_rev in_upt_Suc)
  from m obtain caps' where "rmatch r (drop n s) = Some (caps', rest)" "caps = take n s # caps'"
    by (cases "rmatch r (drop n s)") auto
  with n show ?thesis by blast
qed

lemma rmatch_rest_length: "rmatch re s = Some (caps, rest) \<Longrightarrow> length rest \<le> length s"
proof (induction re s arbitrary: caps rest rule: rmatch.induct)
  case (1 s)
  then show ?case by (simp add: rmatch.simps)
next
  case (2 l r s)
  then show ?case by (auto simp: rmatch.simps split: if_splits)
next
  case (3 c lo r s)
  from rmatch_Rep_Some[OF 3(2)] obtain n
    where n: "lo \<le> n" "n \<le> length (takeWhile (in_class c) s)"
      and m: "rmatch r (drop n s) = Some (caps, rest)"
    by blast
  have "n \<in> set (rev [lo ..< Suc (length (takeWhile (in_class c) s))])"
    using n by (simp only: set_rev in_upt_Suc)
  then have "length rest \<le> length (drop n s)" using m by (rule 3(1))
  then show ?case by simp
next
  case (4 c lo r s)
  from rmatch_LazyRep_Some[OF 4(2)] obtain n
    where n: "lo \<le> n" "n \<le> length (takeWhile (in_class c) s)"
      and m: "rmatch r (drop n s) = Some (caps, rest)"
    by blast
  have "n \<in> set [lo ..< Suc (length (takeWhile (in_class c) s))]"
    using n by (simp only: in_upt_Suc)
  then have "length rest \<le> length (drop n s)" using m by (rule 4(1))
  then show ?case by simp
next
  case (5 c lo r s)
  from rmatch_Cap_Some[OF 5(2)] obtain n caps'
    where n: "lo \<le> n" "n \<le> length (takeWhile (in_class c) s)"
      and m: "rmatch r (drop n s) = Some (caps', rest)"
    by blast
  have "n \<in> set (rev [lo ..< Suc (length (takeWhile (in_class c) s))])"
    using n by (simp only: set_rev in_upt_Suc)
  then have "length rest \<le> length (drop n s)" using m by (rule 5(1))
  then show ?case by simp
qed

lemma consumingD: "consuming re \<Longrightarrow> rmatch re s = Some (caps, rest) \<Longrightarrow> length rest < length s"
  unfolding consuming_def by blast

lemma consuming_Lit: "l \<noteq> [] \<Longrightarrow> consuming (Lit l # r)"
proof (unfold consuming_def, intro allI impI)
  fix s caps rest
  assume l: "l \<noteq> []" and m: "rmatch (Lit l # r) s = Some (caps, rest)"
  then have t: "take (length l) s = l" and r: "rmatch r (drop (length l) s) = Some (caps, rest)"
    by (auto simp: rmatch.simps split: if_splits)
  have "length rest \<le> length (drop (length l) s)" using r by (rule rmatch_rest_length)
  then have a: "length rest \<le> length s - length l" by simp
  have "length (take (length l) s) = length l" using t by simp
  then have b: "length l \<le> length s" by simp
  have "0 < length l" using l by simp
  with a b show "length rest < length s" by linarith
qed

lemma consuming_Cap: "0 < lo \<Longrightarrow> consuming (Cap c lo # r)"
proof (unfold consuming_def, intro allI impI)
  fix s caps rest
  assume lo: "0 < lo" and m: "rmatch (Cap c lo # r) s = Some (caps, rest)"
  from rmatch_Cap_Some[OF m] obtain n caps'
    where n: "lo \<le> n" "n \<le> length (takeWhile (in_class c) s)"
      and r: "rmatch r (drop n s) = Some (caps', rest)"
    by blast
  have "length rest \<le> length (drop n s)" using r by (rule rmatch_rest_length)
  then have a: "length rest \<le> length s - n" by simp
  have b: "n \<le> length s" using n(2) length_takeWhile_le[of "in_class c" s] by simp
  from a b lo n(1) show "length rest < length s" by linarith
qed

lemma search_consuming:
  "consuming re \<Longrightarrow> search re s = Some (caps, rest) \<Longrightarrow> length rest < length s"
proof (induction s)
  case Nil
  then have "rmatch re [] = Some (caps, rest)" by simp
  then show ?case using Nil(1) by (rule consumingD[rotated])
next
  case (Cons c cs)
  show ?case
  proof (cases "rmatch re (c # cs)")
    case None
    then have "search re cs = Some (caps, rest)" using Cons.prems(2) by simp
    then have "length rest < length cs" using Cons.IH Cons.prems(1) by blast
    then show ?thesis by simp
  next
    case (Some m)
    then have "rmatch re (c # cs) = Some (caps, rest)" using Cons.prems(2) by simp
    then show ?thesis using Cons.prems(1) by (rule consumingD[rotated])
  qed
qed

lemma exec_all_ends: "consuming re \<Longrightarrow> \<exists>ms. exec_all re s = Some ms"
proof (induction re s rule: exec_all.induct)
  case (1 re s)
  show ?case
  proof (cases "search re s")
    case None
    then show ?thesis by (subst exec_all.simps) simp
  next
    case (Some m)
    obtain caps rest where m: "m = (caps, rest)" by (cases m)
    have lt: "length rest < length s" using search_consuming[OF 1(2)] Some m by simp
    then obtain ms where "exec_all re rest = Some ms" using 1(1)[OF Some m[symmetric] _ 1(2)] by auto
    then show ?thesis using Some m lt by (subst exec_all.simps) simp
  qed
qed

lemma parsePods_ends: "\<exists>pods. parsePods out = Some pods"
  using exec_all_ends[of pods_re out] consuming_Cap[of 1 NotSpace]
  by (auto simp: parsePods_def pods_re_def)

lemma batch_ends: "\<exists>ms. exec_all batch_re out = Some ms"
  using exec_all_ends[of batch_re out] consuming_Lit[of "''containerStatuses:''"]
  by (auto simp: batch_re_def)

section \<open>Batched build query: builds by position\<close>

lemma assign_builds_length: "length (assign_builds ms k pods) = length pods"
  by (induction ms arbitrary: k pods) auto

lemma assign_builds_nth:
  "i < length pods \<Longrightarrow>
   assign_builds ms k pods ! i =
     (if k \<le> i \<and> i < k + length ms then (pods ! i)\<lparr>pod_build := group1 (ms ! (i - k))\<rparr>
      else pods ! i)"
proof (induction ms arbitrary: k pods)
  case Nil
  then show ?case by auto
next
  case (Cons m ms)
  let ?pods = "if k < length pods then pods[k := (pods ! k)\<lparr>pod_build := group1 m\<rparr>] else pods"
  have len: "i < length ?pods" using Cons.prems by simp
  have step: "assign_builds (m # ms) k pods ! i = assign_builds ms (Suc k) ?pods ! i" by simp
  show ?case
  proof (cases "i = k")
    case True
    then show ?thesis unfolding step Cons.IH[OF len] using Cons.prems by simp
  next
    case False
    then have same: "?pods ! i = pods ! i" by simp
    show ?thesis
    proof (cases "Suc k \<le> i \<and> i < Suc k + length ms")
      case True
      then have "ms ! (i - Suc k) = (m # ms) ! (i - k)" by (simp add: Suc_diff_Suc)
      then show ?thesis unfolding step Cons.IH[OF len] using True same by auto
    next
      case out: False
      then show ?thesis unfolding step Cons.IH[OF len] using False same by auto
    qed
  qed
qed

text \<open>
  C7, as the parser has it. The name of every parsed pod is derived from its id, and the
  parse of any output ends. When the id is some text without a line break, a dash, a
  possibly empty run of digits and a dash, and no dash-digits-dash begins further right,
  the name is that text: \<^verbatim>\<open>myapp-1234567890-abc12\<close> gives \<^verbatim>\<open>myapp\<close>. An id in which no dash is
  followed by digits only up to the next dash is its own name; \<^verbatim>\<open>myapp-7f8c9d-abc12\<close> is one.
\<close>

theorem C7_derived_name:
  "(\<exists>pods. parsePods out = Some pods
      \<and> (\<forall>pod \<in> set pods. pod_name pod = derive_name (pod_id pod)))
   \<and> ((\<forall>c \<in> set p. \<not> line_terminator c) \<and> (\<forall>c \<in> set ds. is_digit c)
        \<and> \<not> has_numeric_segment (''-'' @ r)
       \<longrightarrow> derive_name (p @ ''-'' @ ds @ ''-'' @ r) = p)
   \<and> (\<not> has_numeric_segment ident \<longrightarrow> derive_name ident = ident)
   \<and> derive_name ''myapp-1234567890-abc12'' = ''myapp''
   \<and> derive_name ''myapp-7f8c9d-abc12'' = ''myapp-7f8c9d-abc12''"
proof -
  obtain pods where pods: "parsePods out = Some pods" using parsePods_ends by blast
  then have a: "\<exists>pods. parsePods out = Some pods
      \<and> (\<forall>pod \<in> set pods. pod_name pod = derive_name (pod_id pod))"
    using parsePods_names by blast
  have b: "(\<forall>c \<in> set p. \<not> line_terminator c) \<and> (\<forall>c \<in> set ds. is_digit c)
        \<and> \<not> has_numeric_segment (''-'' @ r)
       \<longrightarrow> derive_name (p @ ''-'' @ ds @ ''-'' @ r) = p"
    using derive_name_strips by blast
  have c: "\<not> has_numeric_segment ident \<longrightarrow> derive_name ident = ident"
    using derive_name_no_segment by blast
  have d: "derive_name ''myapp-1234567890-abc12'' = ''myapp''" by code_simp
  have e: "derive_name ''myapp-7f8c9d-abc12'' = ''myapp-7f8c9d-abc12''" by code_simp
  from a b c d e show ?thesis by blast
qed

theorem C7_derived_name_witness:
  "parsePods ''web-2-x7 1/1 Running 0 2m''
     = Some [\<lparr>pod_id = ''web-2-x7'', pod_ready = True, pod_name = ''web'', pod_state = ''Running'',
              pod_restarts = ''0'', pod_build = None\<rparr>]
   \<and> \<not> line_terminator CHR ''w'' \<and> is_digit CHR ''2'' \<and> \<not> has_numeric_segment ''-x7''
   \<and> derive_name ''web-2-x7'' = ''web''
   \<and> \<not> has_numeric_segment ''web-x7'' \<and> derive_name ''web-x7'' = ''web-x7''"
proof -
  have a: "parsePods ''web-2-x7 1/1 Running 0 2m''
     = Some [\<lparr>pod_id = ''web-2-x7'', pod_ready = True, pod_name = ''web'', pod_state = ''Running'',
              pod_restarts = ''0'', pod_build = None\<rparr>]"
    by code_simp
  have b: "\<forall>c \<in> set ''web''. \<not> line_terminator c" by (simp add: line_terminator_def)
  have c: "\<forall>c \<in> set ''2''. is_digit c" by (simp add: is_digit_def)
  have d: "\<not> has_numeric_segment (''-'' @ ''x7'')" by (simp add: is_digit_def)
  have e: "\<not> has_numeric_segment ''web-x7''" by (simp add: is_digit_def)
  have f: "derive_name (''web'' @ ''-'' @ ''2'' @ ''-'' @ ''x7'') = ''web''"
    using C7_derived_name[of "''web-2-x7 1/1 Running 0 2m''" "''web''" "''2''" "''x7''" "''web-x7''"]
          b c d by blast
  have g: "derive_name ''web-x7'' = ''web-x7''"
    using C7_derived_name[of "''web-2-x7 1/1 Running 0 2m''" "''web''" "''2''" "''x7''" "''web-x7''"]
          e by blast
  show ?thesis using a b c d e f g by simp
qed

text \<open>
  The claim as written fails at its own example: the middle segment of
  \<^verbatim>\<open>myapp-7f8c9d-abc12\<close> is not made of digits, the pattern finds nothing, and the pod gets its
  whole id as its name.
\<close>

theorem C7_counterexample:
  "parsePods ''myapp-7f8c9d-abc12 1/1 Running 0 2m''
     = Some [\<lparr>pod_id = ''myapp-7f8c9d-abc12'', pod_ready = True, pod_name = ''myapp-7f8c9d-abc12'',
              pod_state = ''Running'', pod_restarts = ''0'', pod_build = None\<rparr>]
   \<and> derive_name ''myapp-7f8c9d-abc12'' \<noteq> ''myapp''"
proof -
  have a: "parsePods ''myapp-7f8c9d-abc12 1/1 Running 0 2m''
     = Some [\<lparr>pod_id = ''myapp-7f8c9d-abc12'', pod_ready = True, pod_name = ''myapp-7f8c9d-abc12'',
              pod_state = ''Running'', pod_restarts = ''0'', pod_build = None\<rparr>]"
    by code_simp
  have b: "derive_name ''myapp-7f8c9d-abc12'' = ''myapp-7f8c9d-abc12''" by code_simp
  show ?thesis using a b by simp
qed

text \<open>
  C6. The query ends, and the pod at position \<open>i\<close> of the requested pods comes back with the
  first group of the match at position \<open>i\<close> as its build when the output has that many
  matches, and with no build otherwise; the result has as many pods as were requested, so
  matches beyond that number leave no trace.
\<close>

theorem C6_positional:
  "(\<exists>pods. parsePods podsOut = Some pods)
   \<and> (\<exists>ms. exec_all batch_re yamlOut = Some ms)
   \<and> (parsePods podsOut = Some pods \<and> exec_all batch_re yamlOut = Some ms \<longrightarrow>
        getPodsWithBuildNumbers deployments podsOut yamlOut
          = Some (map (\<lambda>i. (requested deployments pods ! i)
                              \<lparr>pod_build := (if i < length ms then group1 (ms ! i) else None)\<rparr>)
                      [0 ..< length (requested deployments pods)]))"
proof -
  have "getPodsWithBuildNumbers deployments podsOut yamlOut
          = Some (map (\<lambda>i. (requested deployments pods ! i)
                              \<lparr>pod_build := (if i < length ms then group1 (ms ! i) else None)\<rparr>)
                      [0 ..< length (requested deployments pods)])"
    if p: "parsePods podsOut = Some pods" and m: "exec_all batch_re yamlOut = Some ms"
  proof -
    let ?req = "requested deployments pods"
    have none: "pod_build (?req ! i) = None" if "i < length ?req" for i
    proof -
      have "?req ! i \<in> set pods" using that nth_mem[of i ?req] by (auto simp: requested_def)
      then show ?thesis using parsePods_names[OF p] by blast
    qed
    have "assign_builds ms 0 ?req
            = map (\<lambda>i. (?req ! i)\<lparr>pod_build := (if i < length ms then group1 (ms ! i) else None)\<rparr>)
                  [0 ..< length ?req]"
    proof (rule nth_equalityI)
      show "length (assign_builds ms 0 ?req) = length (map (\<lambda>i. (?req ! i)
              \<lparr>pod_build := (if i < length ms then group1 (ms ! i) else None)\<rparr>) [0 ..< length ?req])"
        by (simp add: assign_builds_length)
    next
      fix i assume "i < length (assign_builds ms 0 ?req)"
      then have i: "i < length ?req" by (simp add: assign_builds_length)
      have "(?req ! i)\<lparr>pod_build := None\<rparr> = ?req ! i" using none[OF i] by simp
      then show "assign_builds ms 0 ?req ! i = map (\<lambda>i. (?req ! i)
              \<lparr>pod_build := (if i < length ms then group1 (ms ! i) else None)\<rparr>) [0 ..< length ?req] ! i"
        using i by (simp add: assign_builds_nth)
    qed
    then show ?thesis using p m by (simp add: getPodsWithBuildNumbers_def)
  qed
  then show ?thesis using parsePods_ends batch_ends by blast
qed

theorem C6_positional_witness:
  "getPodsWithBuildNumbers [''app''] pods_listing one_status
     = Some [\<lparr>pod_id = ''app-1-a'', pod_ready = True, pod_name = ''app'', pod_state = ''Running'',
              pod_restarts = ''0'', pod_build = Some ''42''\<rparr>,
             \<lparr>pod_id = ''app-1-b'', pod_ready = False, pod_name = ''app'', pod_state = ''Pending'',
              pod_restarts = ''0'', pod_build = None\<rparr>]
   \<and> exec_all batch_re three_statuses = Some [[''42''], [''43''], [''44'']]
   \<and> getPodsWithBuildNumbers [''app''] pods_listing three_statuses
     = Some [\<lparr>pod_id = ''app-1-a'', pod_ready = True, pod_name = ''app'', pod_state = ''Running'',
              pod_restarts = ''0'', pod_build = Some ''42''\<rparr>,
             \<lparr>pod_id = ''app-1-b'', pod_ready = False, pod_name = ''app'', pod_state = ''Pending'',
              pod_restarts = ''0'', pod_build = Some ''43''\<rparr>]"
proof -
  let ?pods = "[\<lparr>pod_id = ''app-1-a'', pod_ready = True, pod_name = ''app'', pod_state = ''Running'',
              pod_restarts = ''0'', pod_build = None\<rparr>,
             \<lparr>pod_id = ''app-1-b'', pod_ready = False, pod_name = ''app'', pod_state = ''Pending'',
              pod_restarts = ''0'', pod_build = None\<rparr>]"
  have p: "parsePods pods_listing = Some ?pods" by code_simp
  have m1: "exec_all batch_re one_status = Some [[''42'']]" by code_simp
  have m3: "exec_all batch_re three_statuses = Some [[''42''], [''43''], [''44'']]" by code_simp
  have r: "requested [''app''] ?pods = ?pods" by (simp add: requested_def)
  have u: "[0 ..< 2] = [0, Suc 0]" by (simp add: upt_rec)
  show ?thesis
    using C6_positional[of pods_listing one_status ?pods "[[''42'']]" "[''app'']"]
          C6_positional[of pods_listing three_statuses ?pods "[[''42''], [''43''], [''44'']]" "[''app'']"]
          p m1 m3
    by (simp add: r u)
qed

end
